theory Spec2Isabelle
  imports Complex_Main "HOL-Library.Sublist"
begin

section \<open>Data model\<close>

text \<open>
  The Prisma enums of the schema.  The three enums share the literals PENDING and
  CANCELLED, so every constructor carries a prefix naming its enum.
\<close>

datatype BookingStatus = BK_PENDING | BK_CONFIRMED | BK_CANCELLED | BK_COMPLETED

datatype PaymentStatus = PY_PENDING | PY_SUCCEEDED | PY_FAILED | PY_CANCELLED

datatype ParkingStatus = PK_PENDING | PK_APPROVED | PK_REJECTED | PK_INACTIVE

subsection \<open>JavaScript numbers\<close>

text \<open>
  A JavaScript number is an IEEE 754 binary64 value, and the columns that hold prices
  are \<^verbatim>\<open>DOUBLE PRECISION\<close>.  A finite number is given by the real it denotes; the two
  zeros are one value.  Every arithmetic operation returns the exact result rounded to
  the nearest binary64 value, ties to the even significand (\<open>round64\<close>).
\<close>

datatype number = Finite real | PosInfinity | NegInfinity | NaN

text \<open>\<open>ilog2 n\<close> is the position of the leading bit of \<open>n\<close>, for \<open>n \<ge> 1\<close>.\<close>

function ilog2 :: "int \<Rightarrow> int" where
  "ilog2 n = (if n < 2 then 0 else 1 + ilog2 (n div 2))"
  by pat_completeness auto
termination
  by (relation "measure nat") auto

declare ilog2.simps [simp del]

text \<open>\<open>scale2 k x\<close> is \<open>x\<close> times two to the \<open>k\<close>, for an integer \<open>k\<close> of either sign.\<close>

definition scale2 :: "int \<Rightarrow> real \<Rightarrow> real" where
  "scale2 k x = (if 0 \<le> k then x * 2 ^ nat k else x / 2 ^ nat (- k))"

text \<open>The binary exponent of a positive real \<open>a\<close>: the \<open>e\<close> with \<open>2^e \<le> a < 2^(e+1)\<close>.\<close>

definition exponent :: "real \<Rightarrow> int" where
  "exponent a =
     (if 1 \<le> a then ilog2 \<lfloor>a\<rfloor>
      else (let j = ilog2 \<lfloor>1 / a\<rfloor>
            in if scale2 j a = 1 then - j else - j - 1))"

text \<open>The nearest integer, a tie going to the even one.\<close>

definition rne :: "real \<Rightarrow> int" where
  "rne x =
     (let f = \<lfloor>x\<rfloor>; r = x - of_int f
      in if r < 1 / 2 then f
         else if 1 / 2 < r then f + 1
         else if even f then f else f + 1)"

text \<open>
  Rounding a real to binary64.  The significand has 53 bits, so a number of exponent
  \<open>e\<close> is a multiple of \<open>2^(e - 52)\<close>; below \<open>2^(-1022)\<close> the spacing stays that of
  exponent \<open>-1022\<close> (subnormal numbers); a result of magnitude \<open>2^1024\<close> or more is
  infinite.
\<close>

definition round64 :: "real \<Rightarrow> number" where
  "round64 x =
     (if x = 0 then Finite 0
      else
        let a = \<bar>x\<bar>;
            e = max (exponent a) (- 1022);
            n = rne (scale2 (52 - e) a);
            v = scale2 (e - 52) (of_int n)
        in if 1024 \<le> e then (if 0 < x then PosInfinity else NegInfinity)
           else if e = 1023 \<and> 2 ^ 53 \<le> n then (if 0 < x then PosInfinity else NegInfinity)
           else Finite (if 0 < x then v else - v))"

text \<open>The operator \<^verbatim>\<open>*\<close>.\<close>

fun num_times :: "number \<Rightarrow> number \<Rightarrow> number" where
  "num_times (Finite x) (Finite y) = round64 (x * y)"
| "num_times NaN _ = NaN"
| "num_times _ NaN = NaN"
| "num_times (Finite x) PosInfinity = (if x = 0 then NaN else if 0 < x then PosInfinity else NegInfinity)"
| "num_times (Finite x) NegInfinity = (if x = 0 then NaN else if 0 < x then NegInfinity else PosInfinity)"
| "num_times PosInfinity (Finite y) = (if y = 0 then NaN else if 0 < y then PosInfinity else NegInfinity)"
| "num_times NegInfinity (Finite y) = (if y = 0 then NaN else if 0 < y then NegInfinity else PosInfinity)"
| "num_times PosInfinity PosInfinity = PosInfinity"
| "num_times PosInfinity NegInfinity = NegInfinity"
| "num_times NegInfinity PosInfinity = NegInfinity"
| "num_times NegInfinity NegInfinity = PosInfinity"

text \<open>The operator \<^verbatim>\<open>/\<close> with a positive integer literal on the right, the only
  divisions of the source; \<open>c\<close> is the literal.\<close>

fun num_over :: "number \<Rightarrow> real \<Rightarrow> number" where
  "num_over (Finite x) c = round64 (x / c)"
| "num_over PosInfinity c = PosInfinity"
| "num_over NegInfinity c = NegInfinity"
| "num_over NaN c = NaN"

text \<open>
  \<^verbatim>\<open>Math.round\<close>: the nearest integer, a half going up.  For a binary64 argument that
  integer is a binary64 value, so nothing is rounded a second time.
\<close>

fun Math_round :: "number \<Rightarrow> number" where
  "Math_round (Finite x) = Finite (of_int \<lfloor>x + 1 / 2\<rfloor>)"
| "Math_round PosInfinity = PosInfinity"
| "Math_round NegInfinity = NegInfinity"
| "Math_round NaN = NaN"

subsection \<open>Tables\<close>

text \<open>
  Rows of the tables the booking and payment services touch.  Times are the
  millisecond values of \<^verbatim>\<open>Date.getTime()\<close>, integers.  Prices are JavaScript numbers.
  Columns that no modelled function reads or branches on (notes, vehicle data,
  amounts, URLs) are left out.
\<close>

record ParkingSpot =
  ps_id :: string
  ps_ownerId :: string
  ps_status :: ParkingStatus
  ps_pricePerHour :: number

record Booking =
  b_id :: string
  b_startTime :: int
  b_endTime :: int
  b_totalPrice :: number
  b_parkingSpotId :: string
  b_userId :: string
  b_status :: BookingStatus

record Payment =
  p_id :: string
  p_referenceNumber :: string
  p_externalId :: string
  p_bookingId :: string
  p_status :: PaymentStatus
  p_paymentMethod :: "string option"

text \<open>
  What leaves the process: the two confirmation mails, the logger calls, one
  constructor per call site with the interpolated values, and the waits of the poller.
  A mail is recorded when its sending function gets as far as handing the mail to
  GmailService; a function that throws before that records none.
\<close>

datatype notification =
  SendBookingConfirmationEmail string
| SendGuestConfirmationEmail string

datatype log_entry =
  Log_UpdatingPayment string string
| Log_UpdatedPayment string string
| Err_FailedToUpdatePayment string
| Err_PaymentNotFound string
| Log_UpdatedBooking string BookingStatus
| Log_UpdatedBookingBasedOn string BookingStatus string
| Err_FailedToSendGuestEmail
| Err_FailedToGetPaymentStatus string
| Log_FinalStatus string string
| Log_StillPending string nat
| Err_CheckingPaymentStatus string
| Warn_StatusCheckTimeout string
| Warn_InvalidSignature
| Warn_SecretNotConfigured
| Log_TestSignature
| Log_EventStructure
| Log_AlreadyProcessed string
| Log_WithoutExternalId
| Warn_PaymentNotFoundForExternalId string
| Log_PaymentCompleted string string
| Log_PaymentFailed string
| Log_PaymentCancelled string
| Log_UnhandledEventType string
| Log_WebhookProcessed string string
| Err_WebhookProcessing

record world =
  parkingSpots :: "ParkingSpot list"
  bookings :: "Booking list"
  payments :: "Payment list"
  webhookEvents :: "string list"
  sent :: "notification list"
  logs :: "log_entry list"
  delays :: "nat list"

text \<open>
  Exceptions are values.  An operation returns its outcome together with the world it
  leaves behind, so a write made before a throw stays visible.
\<close>

datatype error =
  NotFoundException string
| BadRequestException string
| Error string
| TypeError
| PrismaRecordNotFound

section \<open>Prisma queries\<close>

text \<open>
  \<^verbatim>\<open>findUnique\<close> and \<^verbatim>\<open>findFirst\<close> return the first matching row.  \<^verbatim>\<open>update\<close> on a
  unique key throws when no row matches and rewrites the matching row otherwise; the
  keys are unique in the schema, so rewriting every match is rewriting the one row.
\<close>

definition booking_findUnique :: "string \<Rightarrow> world \<Rightarrow> Booking option" where
  "booking_findUnique i w = find (\<lambda>b. b_id b = i) (bookings w)"

definition booking_update :: "string \<Rightarrow> BookingStatus \<Rightarrow> world \<Rightarrow> world option" where
  "booking_update i st w =
     (if \<exists>b \<in> set (bookings w). b_id b = i
      then Some (w\<lparr>bookings := map (\<lambda>b. if b_id b = i then b\<lparr>b_status := st\<rparr> else b) (bookings w)\<rparr>)
      else None)"

definition parkingSpot_findUnique :: "string \<Rightarrow> world \<Rightarrow> ParkingSpot option" where
  "parkingSpot_findUnique i w = find (\<lambda>s. ps_id s = i) (parkingSpots w)"

definition payment_findUnique_referenceNumber :: "string \<Rightarrow> world \<Rightarrow> Payment option" where
  "payment_findUnique_referenceNumber r w = find (\<lambda>p. p_referenceNumber p = r) (payments w)"

definition payment_findUnique_bookingId :: "string \<Rightarrow> world \<Rightarrow> Payment option" where
  "payment_findUnique_bookingId i w = find (\<lambda>p. p_bookingId p = i) (payments w)"

definition payment_update_id :: "string \<Rightarrow> PaymentStatus \<Rightarrow> world \<Rightarrow> world option" where
  "payment_update_id i st w =
     (if \<exists>p \<in> set (payments w). p_id p = i
      then Some (w\<lparr>payments := map (\<lambda>p. if p_id p = i then p\<lparr>p_status := st\<rparr> else p) (payments w)\<rparr>)
      else None)"

definition payment_update_bookingId :: "string \<Rightarrow> PaymentStatus \<Rightarrow> world \<Rightarrow> world option" where
  "payment_update_bookingId i st w =
     (if \<exists>p \<in> set (payments w). p_bookingId p = i
      then Some (w\<lparr>payments := map (\<lambda>p. if p_bookingId p = i then p\<lparr>p_status := st\<rparr> else p) (payments w)\<rparr>)
      else None)"

section \<open>BookingService\<close>

record CreateBookingDto =
  dto_parkingSpotId :: string
  dto_startTime :: int
  dto_endTime :: int

text \<open>The \<^verbatim>\<open>OR\<close> clause of the overlap query, for a request \<open>[s, e)\<close>.\<close>

definition overlapClause :: "int \<Rightarrow> int \<Rightarrow> Booking \<Rightarrow> bool" where
  "overlapClause s e b \<longleftrightarrow>
     (b_startTime b \<le> s \<and> b_endTime b > s)
   \<or> (b_startTime b < e \<and> b_endTime b \<ge> e)
   \<or> (b_startTime b \<ge> s \<and> b_endTime b \<le> e)"

definition overlappingWhere :: "string \<Rightarrow> int \<Rightarrow> int \<Rightarrow> Booking \<Rightarrow> bool" where
  "overlappingWhere spot s e b \<longleftrightarrow>
     b_parkingSpotId b = spot
   \<and> b_status b \<in> set [BK_PENDING, BK_CONFIRMED]
   \<and> \<not> (b_status b \<in> set [BK_CANCELLED, BK_COMPLETED])
   \<and> overlapClause s e b"

text \<open>
  The two lines of \<^verbatim>\<open>create\<close> that compute the price, for the millisecond values \<open>s\<close>
  and \<open>e\<close> of the start and the end:
  \<^verbatim>\<open>hours = (e - s) / (1000 * 60 * 60)\<close> and
  \<^verbatim>\<open>totalPrice = Math.round(hours * pricePerHour * 100) / 100\<close>.
  The subtraction, the two divisions and the two multiplications each round.
\<close>

definition computeTotalPrice :: "int \<Rightarrow> int \<Rightarrow> number \<Rightarrow> number" where
  "computeTotalPrice s e pricePerHour =
     (let hours = num_over (round64 (of_int e - of_int s)) (1000 * 60 * 60)
      in num_over (Math_round (num_times (num_times hours pricePerHour) (Finite 100))) 100)"

text \<open>
  \<^verbatim>\<open>create\<close> up to, and without, its last statement: the validations, the overlap query
  and the price.  It only reads.  \<open>now\<close> is the value of \<^verbatim>\<open>new Date()\<close>, \<open>newId\<close> the
  identifier the database will give the row.
\<close>

definition create_check :: "world \<Rightarrow> int \<Rightarrow> CreateBookingDto \<Rightarrow> string \<Rightarrow> string \<Rightarrow> error + Booking" where
  "create_check w now dto userId newId =
     (case parkingSpot_findUnique (dto_parkingSpotId dto) w of
        None \<Rightarrow> Inl (NotFoundException ''Parking spot not found'')
      | Some parkingSpot \<Rightarrow>
          if ps_status parkingSpot \<noteq> PK_APPROVED
          then Inl (BadRequestException ''Parking spot is not available for booking'')
          else if ps_ownerId parkingSpot = userId
          then Inl (BadRequestException ''You cannot book your own parking spot'')
          else if dto_startTime dto \<ge> dto_endTime dto
          then Inl (BadRequestException ''End time must be after start time'')
          else if dto_startTime dto < now
          then Inl (BadRequestException ''Start time must be in the future'')
          else (case find (overlappingWhere (dto_parkingSpotId dto) (dto_startTime dto) (dto_endTime dto))
                       (bookings w) of
                  Some overlappingBooking \<Rightarrow> Inl (BadRequestException ''This time slot is already booked'')
                | None \<Rightarrow>
                    Inr \<lparr> b_id = newId,
                          b_startTime = dto_startTime dto,
                          b_endTime = dto_endTime dto,
                          b_totalPrice = computeTotalPrice (dto_startTime dto) (dto_endTime dto)
                                           (ps_pricePerHour parkingSpot),
                          b_parkingSpotId = dto_parkingSpotId dto,
                          b_userId = userId,
                          b_status = BK_PENDING \<rparr>))"

text \<open>The last statement of \<^verbatim>\<open>create\<close>: \<^verbatim>\<open>prisma.booking.create\<close>.\<close>

definition create_insert :: "Booking \<Rightarrow> world \<Rightarrow> world" where
  "create_insert b w = w\<lparr>bookings := bookings w @ [b]\<rparr>"

definition create :: "world \<Rightarrow> int \<Rightarrow> CreateBookingDto \<Rightarrow> string \<Rightarrow> string \<Rightarrow> (error + Booking) \<times> world" where
  "create w now dto userId newId =
     (case create_check w now dto userId newId of
        Inl e \<Rightarrow> (Inl e, w)
      | Inr b \<Rightarrow> (Inr b, create_insert b w))"

text \<open>
  \<^verbatim>\<open>findOne\<close> returns the booking with its payment included.  The owner of the spot is
  read only when the caller is not the requester (\<^verbatim>\<open>&&\<close> short-circuits).
\<close>

definition findOne :: "string \<Rightarrow> string \<Rightarrow> world \<Rightarrow> error + Booking \<times> Payment option" where
  "findOne i userId w =
     (case booking_findUnique i w of
        None \<Rightarrow> Inl (NotFoundException ''Booking not found'')
      | Some booking \<Rightarrow>
          if b_userId booking \<noteq> userId
          then (case parkingSpot_findUnique (b_parkingSpotId booking) w of
                  None \<Rightarrow> Inl TypeError
                | Some parkingSpot \<Rightarrow>
                    if ps_ownerId parkingSpot \<noteq> userId
                    then Inl (NotFoundException ''Booking not found'')
                    else Inr (booking, payment_findUnique_bookingId i w))
          else Inr (booking, payment_findUnique_bookingId i w))"

definition cancel_payment_part :: "string \<Rightarrow> Payment option \<Rightarrow> world \<Rightarrow> error + world" where
  "cancel_payment_part i included w =
     (case included of
        None \<Rightarrow> Inr w
      | Some _ \<Rightarrow>
          (case payment_findUnique_bookingId i w of
             None \<Rightarrow> Inr w
           | Some payment \<Rightarrow>
               if p_status payment = PY_PENDING
               then (case payment_update_id (p_id payment) PY_CANCELLED w of
                       None \<Rightarrow> Inl PrismaRecordNotFound
                     | Some w' \<Rightarrow> Inr w')
               else Inr w))"

definition cancel :: "string \<Rightarrow> string \<Rightarrow> world \<Rightarrow> (error + Booking) \<times> world" where
  "cancel i userId w =
     (case findOne i userId w of
        Inl e \<Rightarrow> (Inl e, w)
      | Inr (booking, included) \<Rightarrow>
          if b_userId booking \<noteq> userId
          then (Inl (BadRequestException ''You can only cancel your own bookings''), w)
          else if b_status booking = BK_CANCELLED
          then (Inl (BadRequestException ''Booking is already cancelled''), w)
          else if b_status booking = BK_COMPLETED
          then (Inl (BadRequestException ''Cannot cancel a completed booking''), w)
          else (case cancel_payment_part i included w of
                  Inl e \<Rightarrow> (Inl e, w)
                | Inr w1 \<Rightarrow>
                    (case booking_update i BK_CANCELLED w1 of
                       None \<Rightarrow> (Inl PrismaRecordNotFound, w1)
                     | Some w2 \<Rightarrow> (Inr (booking\<lparr>b_status := BK_CANCELLED\<rparr>), w2))))"


text \<open>
  \<^verbatim>\<open>devCancel\<close>; \<open>production\<close> says whether \<^verbatim>\<open>NODE_ENV\<close> is \<^verbatim>\<open>'production'\<close>.
\<close>

definition devCancel :: "bool \<Rightarrow> string \<Rightarrow> string \<Rightarrow> world \<Rightarrow> (error + Booking) \<times> world" where
  "devCancel production i userId w =
     (if production
      then (Inl (BadRequestException ''Dev cancel is only available in development mode''), w)
      else
        (case findOne i userId w of
           Inl e \<Rightarrow> (Inl e, w)
         | Inr (booking, included) \<Rightarrow>
             if b_userId booking \<noteq> userId
             then (Inl (BadRequestException ''You can only cancel your own bookings''), w)
             else if b_status booking = BK_CANCELLED
             then (Inl (BadRequestException ''Booking is already cancelled''), w)
             else
               (case (case included of
                        None \<Rightarrow> Some w
                      | Some _ \<Rightarrow> payment_update_bookingId i PY_CANCELLED w) of
                  None \<Rightarrow> (Inl PrismaRecordNotFound, w)
                | Some w1 \<Rightarrow>
                    (case booking_update i BK_CANCELLED w1 of
                       None \<Rightarrow> (Inl PrismaRecordNotFound, w1)
                     | Some w2 \<Rightarrow> (Inr (booking\<lparr>b_status := BK_CANCELLED\<rparr>), w2)))))"

subsection \<open>Two requests in flight\<close>

text \<open>
  \<^verbatim>\<open>create\<close> awaits the overlap query and, later, the insert; nothing ties the two
  together (no transaction, no lock, no constraint on the table).  A request in flight
  is therefore in one of three places, and the scheduler may run another request
  between any two of them.
\<close>

datatype create_proc =
  Requested int CreateBookingDto string string
| Checked Booking
| Returned "error + Booking"

fun create_step :: "create_proc \<Rightarrow> world \<Rightarrow> create_proc \<times> world" where
  "create_step (Requested now dto userId newId) w =
     (case create_check w now dto userId newId of
        Inl e \<Rightarrow> (Returned (Inl e), w)
      | Inr b \<Rightarrow> (Checked b, w))"
| "create_step (Checked b) w = (Returned (Inr b), create_insert b w)"
| "create_step (Returned r) w = (Returned r, w)"

text \<open>A schedule names, step by step, which of the two requests moves: \<open>False\<close> the
  first, \<open>True\<close> the second.\<close>

fun run_two :: "bool list \<Rightarrow> create_proc \<times> create_proc \<times> world \<Rightarrow> create_proc \<times> create_proc \<times> world" where
  "run_two [] s = s"
| "run_two (second # sched) (p, q, w) =
     (if second
      then (case create_step q w of (q', w') \<Rightarrow> run_two sched (p, q', w'))
      else (case create_step p w of (p', w') \<Rightarrow> run_two sched (p', q, w')))"

section \<open>PaymentService\<close>

definition payment_update_referenceNumber :: "string \<Rightarrow> (Payment \<Rightarrow> Payment) \<Rightarrow> world \<Rightarrow> world option" where
  "payment_update_referenceNumber r f w =
     (if \<exists>p \<in> set (payments w). p_referenceNumber p = r
      then Some (w\<lparr>payments := map (\<lambda>p. if p_referenceNumber p = r then f p else p) (payments w)\<rparr>)
      else None)"

definition payment_findFirst_externalId :: "string \<Rightarrow> world \<Rightarrow> Payment option" where
  "payment_findFirst_externalId x w = find (\<lambda>p. p_externalId p = x) (payments w)"

definition mapPaymentStatus :: "string \<Rightarrow> PaymentStatus" where
  "mapPaymentStatus status =
     (if status = ''PENDING'' then PY_PENDING
      else if status = ''SUCCEEDED'' then PY_SUCCEEDED
      else if status = ''FAILED'' then PY_FAILED
      else if status = ''CANCELLED'' then PY_CANCELLED
      else PY_PENDING)"

text \<open>The \<^verbatim>\<open>switch\<close> of both \<^verbatim>\<open>updateBookingStatus\<close> methods; \<open>None\<close> is its
  \<^verbatim>\<open>default: return\<close>.\<close>

definition switch_bookingStatus :: "string \<Rightarrow> BookingStatus option" where
  "switch_bookingStatus paymentStatus =
     (if paymentStatus = ''SUCCEEDED'' then Some BK_CONFIRMED
      else if paymentStatus = ''FAILED'' \<or> paymentStatus = ''CANCELLED'' then Some BK_CANCELLED
      else None)"

definition log :: "log_entry \<Rightarrow> world \<Rightarrow> world" where
  "log l w = w\<lparr>logs := logs w @ [l]\<rparr>"

text \<open>
  The mail functions wrap their bodies in \<^verbatim>\<open>try\<close>/\<^verbatim>\<open>catch\<close> and never throw.
  \<^verbatim>\<open>sendBookingConfirmationEmail\<close> (the mail to the building office, in the owner's
  name) and \<^verbatim>\<open>sendGuestConfirmationEmail\<close> (the mail to the requester) build the mail
  from the payment with its booking and hand it to GmailService; the delivery is behind
  that call.  The first one does so for an owner with a connected Gmail account and
  skips the mail otherwise; the table of accounts is not modelled, every owner is taken
  to have one.  Both services have this function, the same but for the way the owner is
  read; the model has it once.
\<close>

definition sendBookingConfirmationEmail :: "Payment \<Rightarrow> world \<Rightarrow> world" where
  "sendBookingConfirmationEmail payment w =
     w\<lparr>sent := sent w @ [SendBookingConfirmationEmail (p_bookingId payment)]\<rparr>"

text \<open>\<^verbatim>\<open>sendGuestConfirmationEmail\<close> of PaymentStatusService, whose query includes the
  owner of the spot.\<close>

definition sendGuestConfirmationEmail :: "Payment \<Rightarrow> world \<Rightarrow> world" where
  "sendGuestConfirmationEmail payment w =
     w\<lparr>sent := sent w @ [SendGuestConfirmationEmail (p_bookingId payment)]\<rparr>"

text \<open>
  \<^verbatim>\<open>sendGuestConfirmationEmail\<close> of PaymentService.  The query of
  \<^verbatim>\<open>PaymentService.updateBookingStatus\<close> includes the booking's user and parking spot,
  not the spot's owner, so \<^verbatim>\<open>parkingSpot.owner\<close> is undefined and the template, which
  reads \<^verbatim>\<open>owner.firstName\<close>, throws a TypeError before \<^verbatim>\<open>sendSystemEmail\<close> is reached.
  The \<^verbatim>\<open>catch\<close> logs the failure; no mail is handed over.
\<close>

definition PaymentService_sendGuestConfirmationEmail :: "Payment \<Rightarrow> world \<Rightarrow> world" where
  "PaymentService_sendGuestConfirmationEmail payment w = log Err_FailedToSendGuestEmail w"

definition PaymentService_updateBookingStatus :: "string \<Rightarrow> string \<Rightarrow> world \<Rightarrow> (error + unit) \<times> world" where
  "PaymentService_updateBookingStatus referenceNumber paymentStatus w =
     (case payment_findUnique_referenceNumber referenceNumber w of
        None \<Rightarrow> (Inr (), w)
      | Some payment \<Rightarrow>
          (case switch_bookingStatus paymentStatus of
             None \<Rightarrow> (Inr (), w)
           | Some bookingStatus \<Rightarrow>
               (case booking_update (p_bookingId payment) bookingStatus w of
                  None \<Rightarrow> (Inl PrismaRecordNotFound, w)
                | Some w1 \<Rightarrow>
                    let w2 = log (Log_UpdatedBookingBasedOn (p_bookingId payment) bookingStatus paymentStatus) w1
                    in if paymentStatus = ''SUCCEEDED'' \<and> booking_findUnique (p_bookingId payment) w \<noteq> None
                       then (Inr (), PaymentService_sendGuestConfirmationEmail payment
                                 (sendBookingConfirmationEmail payment w2))
                       else (Inr (), w2))))"

text \<open>
  What the gateway answers to one status request: the request fails (network, or a
  response that is not ok), or it carries the payment as the gateway sees it.  The
  status is only compared with \<^verbatim>\<open>===\<close> and printed; as in a webhook body, one that is
  absent is the string \<open>''undefined''\<close>.
\<close>

record PaymentResponse =
  pr_status :: string
  pr_customer :: bool

datatype gateway_response = FetchFailed string | FetchOk PaymentResponse

definition getPaymentStatus :: "string \<Rightarrow> gateway_response \<Rightarrow> world \<Rightarrow> (error + PaymentResponse) \<times> world" where
  "getPaymentStatus referenceNumber response w =
     (case response of
        FetchFailed msg \<Rightarrow> (Inl (Error msg), log (Err_FailedToGetPaymentStatus referenceNumber) w)
      | FetchOk paymentData \<Rightarrow>
          (case payment_update_referenceNumber referenceNumber
                  (\<lambda>p. p\<lparr>p_status := mapPaymentStatus (pr_status paymentData),
                          p_paymentMethod := (if pr_customer paymentData then Some ''online'' else None)\<rparr>) w of
             None \<Rightarrow> (Inl PrismaRecordNotFound, log (Err_FailedToGetPaymentStatus referenceNumber) w)
           | Some w1 \<Rightarrow>
               (case PaymentService_updateBookingStatus referenceNumber (pr_status paymentData) w1 of
                  (Inl e, w2) \<Rightarrow> (Inl e, log (Err_FailedToGetPaymentStatus referenceNumber) w2)
                | (Inr _, w2) \<Rightarrow> (Inr paymentData, w2))))"

definition delay :: "nat \<Rightarrow> world \<Rightarrow> world" where
  "delay ms w = w\<lparr>delays := delays w @ [ms]\<rparr>"

text \<open>
  The \<^verbatim>\<open>for\<close> loop of \<^verbatim>\<open>pollPaymentStatus\<close>, from a given value of \<open>attempt\<close>.
  \<open>gateway i\<close> is what the gateway answers in attempt \<open>i\<close>.
\<close>

function poll_loop :: "string \<Rightarrow> nat \<Rightarrow> (nat \<Rightarrow> gateway_response) \<Rightarrow> nat \<Rightarrow> world \<Rightarrow> (error + string) \<times> world" where
  "poll_loop referenceNumber maxAttempts gateway attempt w =
     (if attempt < maxAttempts
      then
        (case getPaymentStatus referenceNumber (gateway attempt) w of
           (Inr payment, w1) \<Rightarrow>
             if pr_status payment = ''SUCCEEDED'' \<or> pr_status payment = ''FAILED''
                \<or> pr_status payment = ''CANCELLED''
             then (Inr (pr_status payment), log (Log_FinalStatus referenceNumber (pr_status payment)) w1)
             else poll_loop referenceNumber maxAttempts gateway (attempt + 1)
                    (delay (min (2 ^ attempt * 1000) 30000)
                       (log (Log_StillPending referenceNumber (min (2 ^ attempt * 1000) 30000)) w1))
         | (Inl e, w1) \<Rightarrow>
             poll_loop referenceNumber maxAttempts gateway (attempt + 1)
               (if attempt < maxAttempts - 1
                then delay 5000 (log (Err_CheckingPaymentStatus referenceNumber) w1)
                else log (Err_CheckingPaymentStatus referenceNumber) w1))
      else (Inl (Error ''Payment status check timeout after 10 minutes''),
            log (Warn_StatusCheckTimeout referenceNumber) w))"
  by pat_completeness auto
termination
  by (relation "measure (\<lambda>(r, m, g, a, w). m - a)") auto

text \<open>\<open>None\<close> for \<open>maxAttempts\<close> is the call that leaves the parameter to its default.\<close>

definition pollPaymentStatus :: "string \<Rightarrow> nat option \<Rightarrow> (nat \<Rightarrow> gateway_response) \<Rightarrow> world \<Rightarrow> (error + string) \<times> world" where
  "pollPaymentStatus referenceNumber maxAttempts gateway w =
     poll_loop referenceNumber (case maxAttempts of None \<Rightarrow> 20 | Some m \<Rightarrow> m) gateway 0 w"

section \<open>PaymentStatusService\<close>

datatype update_result = Success | Failure error

definition PaymentStatusService_updateBookingStatus :: "string \<Rightarrow> string \<Rightarrow> world \<Rightarrow> (error + unit) \<times> world" where
  "PaymentStatusService_updateBookingStatus referenceNumber paymentStatus w =
     (case payment_findUnique_referenceNumber referenceNumber w of
        None \<Rightarrow> (Inr (), log (Err_PaymentNotFound referenceNumber) w)
      | Some payment \<Rightarrow>
          (case switch_bookingStatus paymentStatus of
             None \<Rightarrow> (Inr (), w)
           | Some bookingStatus \<Rightarrow>
               (case booking_update (p_bookingId payment) bookingStatus w of
                  None \<Rightarrow> (Inl PrismaRecordNotFound, w)
                | Some w1 \<Rightarrow>
                    let w2 = log (Log_UpdatedBooking (p_bookingId payment) bookingStatus) w1
                    in if paymentStatus = ''SUCCEEDED'' \<and> booking_findUnique (p_bookingId payment) w \<noteq> None
                       then (Inr (), sendGuestConfirmationEmail payment (sendBookingConfirmationEmail payment w2))
                       else (Inr (), w2))))"

definition updatePaymentStatusFromAPI :: "string \<Rightarrow> string \<Rightarrow> world \<Rightarrow> update_result \<times> world" where
  "updatePaymentStatusFromAPI referenceNumber paymentStatus w =
     (let w0 = log (Log_UpdatingPayment referenceNumber paymentStatus) w
      in case payment_update_referenceNumber referenceNumber
                (\<lambda>p. p\<lparr>p_status :=
                          (if paymentStatus = ''SUCCEEDED'' then PY_SUCCEEDED
                           else if paymentStatus = ''FAILED'' then PY_FAILED
                           else if paymentStatus = ''CANCELLED'' then PY_CANCELLED
                           else PY_PENDING)\<rparr>) w0 of
           None \<Rightarrow> (Failure PrismaRecordNotFound, log (Err_FailedToUpdatePayment referenceNumber) w0)
         | Some w1 \<Rightarrow>
             (case PaymentStatusService_updateBookingStatus referenceNumber paymentStatus w1 of
                (Inl e, w2) \<Rightarrow> (Failure e, log (Err_FailedToUpdatePayment referenceNumber) w2)
              | (Inr _, w2) \<Rightarrow> (Success, log (Log_UpdatedPayment referenceNumber paymentStatus) w2)))"


section \<open>PaymentController.handleWebhook\<close>

text \<open>
  The parsed body, each field as the handler uses it.
  \<^verbatim>\<open>data.transactionId\<close> and \<^verbatim>\<open>data.externalId\<close> are only tested with \<^verbatim>\<open>||\<close> and
  \<^verbatim>\<open>!\<close> before they are used, which treat an absent field as an empty string: for them
  absent is the empty string.
  \<^verbatim>\<open>data.fullOrderRef\<close> is tested with \<^verbatim>\<open>||\<close> and printed in log lines: absent is
  \<open>None\<close>.
  \<^verbatim>\<open>event\<close> and \<^verbatim>\<open>data.status\<close> are only compared with \<^verbatim>\<open>===\<close> (the \<^verbatim>\<open>switch\<close>, the
  ternary) and printed in log lines, where an absent field prints as \<^verbatim>\<open>undefined\<close>: for
  them absent is the string \<open>''undefined''\<close>, which compares and prints the same way.
\<close>

record WebhookEvent =
  we_event :: string
  we_transactionId :: string
  we_fullOrderRef :: "string option"
  we_externalId :: string
  we_status :: string

text \<open>A value inside a template literal.\<close>

definition interpolate :: "string option \<Rightarrow> string" where
  "interpolate v = (case v of None \<Rightarrow> ''undefined'' | Some s \<Rightarrow> s)"

text \<open>
  One delivery: whether \<^verbatim>\<open>EXPERIA_PG_WEBHOOK_SECRET\<close> is set, the signature header
  (empty when absent), what \<^verbatim>\<open>verifyWebhookSignature\<close> answers, what \<^verbatim>\<open>JSON.parse\<close>
  gives (\<open>None\<close> when it throws), and whether the awaited payment query rejects (a lost
  database connection), the case the \<^verbatim>\<open>catch\<close> block of the handler is written for; the
  rejection is the error value \<open>Error ''database''\<close>.
\<close>

record WebhookDelivery =
  wd_secretConfigured :: bool
  wd_signature :: string
  wd_signatureValid :: bool
  wd_body :: "WebhookEvent option"
  wd_lookupRejects :: bool

datatype ack = Received

definition eventIdOf :: "WebhookEvent \<Rightarrow> string" where
  "eventIdOf event =
     (if we_transactionId event \<noteq> [] then we_transactionId event
      else (case we_fullOrderRef event of
              Some fullOrderRef \<Rightarrow> if fullOrderRef \<noteq> [] then fullOrderRef else ''no-id''
            | None \<Rightarrow> ''no-id''))"

text \<open>The handler after its idempotency block: lookup, status, update.\<close>

definition handleWebhook_apply :: "bool \<Rightarrow> WebhookEvent \<Rightarrow> world \<Rightarrow> (error + ack) \<times> world" where
  "handleWebhook_apply lookupRejects event w =
     (if we_externalId event = []
      then (Inr Received, log Log_WithoutExternalId w)
      else if lookupRejects then (Inl (Error ''database''), w)
      else
        (case payment_findFirst_externalId (we_externalId event) w of
           None \<Rightarrow> (Inr Received, log (Warn_PaymentNotFoundForExternalId (we_externalId event)) w)
         | Some payment \<Rightarrow>
             (case (if we_event event = ''payment.completed''
                    then Some (we_status event,
                               log (Log_PaymentCompleted (we_status event) (interpolate (we_fullOrderRef event))) w)
                    else if we_event event = ''payment.failed''
                    then Some (''FAILED'', log (Log_PaymentFailed (interpolate (we_fullOrderRef event))) w)
                    else if we_event event = ''payment.cancelled''
                    then Some (''CANCELLED'', log (Log_PaymentCancelled (interpolate (we_fullOrderRef event))) w)
                    else None) of
                None \<Rightarrow> (Inr Received, log (Log_UnhandledEventType (we_event event)) w)
              | Some (newStatus, w1) \<Rightarrow>
                  (case updatePaymentStatusFromAPI (p_referenceNumber payment) newStatus w1 of
                     (_, w2) \<Rightarrow>
                       (Inr Received,
                        log (Log_WebhookProcessed (we_event event) (p_referenceNumber payment)) w2)))))"

text \<open>The idempotency block and what follows it.\<close>

definition handleWebhook_event :: "bool \<Rightarrow> WebhookEvent \<Rightarrow> world \<Rightarrow> (error + ack) \<times> world" where
  "handleWebhook_event lookupRejects event w =
     (let w0 = log Log_EventStructure w;
          eventId = eventIdOf event
      in if eventId \<noteq> [] \<and> eventId \<noteq> ''no-id''
         then (if eventId \<in> set (webhookEvents w0)
               then (Inr Received, log (Log_AlreadyProcessed eventId) w0)
               else handleWebhook_apply lookupRejects event
                      (w0\<lparr>webhookEvents := webhookEvents w0 @ [eventId]\<rparr>))
         else handleWebhook_apply lookupRejects event w0)"

text \<open>The \<^verbatim>\<open>try\<close> block: signature, parse, then the event.\<close>

definition handleWebhook_try :: "WebhookDelivery \<Rightarrow> world \<Rightarrow> (error + ack) \<times> world" where
  "handleWebhook_try d w =
     (case (if wd_secretConfigured d \<and> wd_signature d \<noteq> [] \<and> wd_signature d \<noteq> ''test''
            then (if \<not> wd_signatureValid d then Inl (log Warn_InvalidSignature w) else Inr w)
            else if \<not> wd_secretConfigured d then Inr (log Warn_SecretNotConfigured w)
            else if wd_signature d = ''test'' then Inr (log Log_TestSignature w)
            else Inr w) of
        Inl w' \<Rightarrow> (Inl (Error ''Invalid webhook signature''), w')
      | Inr w' \<Rightarrow>
          (case wd_body d of
             None \<Rightarrow> (Inl (Error ''SyntaxError''), w')
           | Some event \<Rightarrow> handleWebhook_event (wd_lookupRejects d) event w'))"

definition handleWebhook :: "WebhookDelivery \<Rightarrow> world \<Rightarrow> (error + ack) \<times> world" where
  "handleWebhook d w =
     (case handleWebhook_try d w of
        (Inl e, w') \<Rightarrow> (Inl e, log Err_WebhookProcessing w')
      | (Inr r, w') \<Rightarrow> (Inr r, w'))"

section \<open>Histories\<close>

text \<open>
  The operations of the source that write the bookings table, as requests, and a
  history as a list of them.
\<close>

datatype operation =
  OpCreate int CreateBookingDto string string
| OpCancel string string
| OpDevCancel bool string string
| OpGetPaymentStatus string gateway_response
| OpPoll string "nat option" "nat \<Rightarrow> gateway_response"
| OpUpdateFromAPI string string
| OpWebhook WebhookDelivery

fun exec :: "operation \<Rightarrow> world \<Rightarrow> world" where
  "exec (OpCreate now dto userId newId) w = snd (create w now dto userId newId)"
| "exec (OpCancel i userId) w = snd (cancel i userId w)"
| "exec (OpDevCancel production i userId) w = snd (devCancel production i userId w)"
| "exec (OpGetPaymentStatus r response) w = snd (getPaymentStatus r response w)"
| "exec (OpPoll r maxAttempts gateway) w = snd (pollPaymentStatus r maxAttempts gateway w)"
| "exec (OpUpdateFromAPI r paymentStatus) w = snd (updatePaymentStatusFromAPI r paymentStatus w)"
| "exec (OpWebhook d) w = snd (handleWebhook d w)"

definition run :: "operation list \<Rightarrow> world \<Rightarrow> world" where
  "run ops w = fold exec ops w"

section \<open>Vocabulary of the specification\<close>

text \<open>Two half-open intervals conflict when each starts before the other ends.\<close>

definition conflict :: "int \<Rightarrow> int \<Rightarrow> int \<Rightarrow> int \<Rightarrow> bool" where
  "conflict s1 e1 s2 e2 \<longleftrightarrow> s1 < e2 \<and> s2 < e1"

definition active :: "Booking \<Rightarrow> bool" where
  "active b \<longleftrightarrow> b_status b = BK_PENDING \<or> b_status b = BK_CONFIRMED"

definition terminal :: "Booking \<Rightarrow> bool" where
  "terminal b \<longleftrightarrow> b_status b = BK_CANCELLED \<or> b_status b = BK_COMPLETED"

text \<open>The data-model invariant \<open>start < end\<close>, for every stored booking.\<close>

definition intervals_ok :: "world \<Rightarrow> bool" where
  "intervals_ok w \<longleftrightarrow> list_all (\<lambda>b. b_startTime b < b_endTime b) (bookings w)"

text \<open>Two bookings double-book a spot: same spot, both active, conflicting intervals.\<close>

definition clash :: "Booking \<Rightarrow> Booking \<Rightarrow> bool" where
  "clash a b \<longleftrightarrow>
     b_parkingSpotId a = b_parkingSpotId b \<and> active a \<and> active b
   \<and> conflict (b_startTime a) (b_endTime a) (b_startTime b) (b_endTime b)"

fun no_double_booking :: "Booking list \<Rightarrow> bool" where
  "no_double_booking [] \<longleftrightarrow> True"
| "no_double_booking (b # bs) \<longleftrightarrow> list_all (\<lambda>c. \<not> clash b c) bs \<and> no_double_booking bs"

text \<open>The price rule in the words of the specification: round up to the cent.\<close>

definition ceil_to_cents :: "real \<Rightarrow> real" where
  "ceil_to_cents x = of_int \<lceil>x * 100\<rceil> / 100"

definition hours :: "int \<Rightarrow> int \<Rightarrow> real" where
  "hours s e = of_int (e - s) / 3600000"

text \<open>The statuses the poller stops on, and the vocabulary the reconciler knows.\<close>

definition terminal_status :: "string \<Rightarrow> bool" where
  "terminal_status s \<longleftrightarrow> s = ''SUCCEEDED'' \<or> s = ''FAILED'' \<or> s = ''CANCELLED''"

definition recognized :: "string \<Rightarrow> bool" where
  "recognized s \<longleftrightarrow> s = ''PENDING'' \<or> s = ''SUCCEEDED'' \<or> s = ''FAILED'' \<or> s = ''CANCELLED''"

text \<open>A gateway answer that does not end the poll: a failed fetch, or a status that is
  not terminal.\<close>

fun not_final :: "gateway_response \<Rightarrow> bool" where
  "not_final (FetchFailed _) \<longleftrightarrow> True"
| "not_final (FetchOk payment) \<longleftrightarrow> \<not> terminal_status (pr_status payment)"

text \<open>Status of the first booking, or payment, with a given key.\<close>

definition bookingStatus :: "string \<Rightarrow> world \<Rightarrow> BookingStatus option" where
  "bookingStatus i w = map_option b_status (booking_findUnique i w)"

definition paymentStatus :: "string \<Rightarrow> world \<Rightarrow> PaymentStatus option" where
  "paymentStatus r w = map_option p_status (payment_findUnique_referenceNumber r w)"

text \<open>Identifier and price of every stored booking, in table order.\<close>

definition price_ledger :: "world \<Rightarrow> (string \<times> number) list" where
  "price_ledger w = map (\<lambda>b. (b_id b, b_totalPrice b)) (bookings w)"

text \<open>What outlives every operation: the price ledger and the processed-event set.\<close>

definition durable :: "world \<Rightarrow> (string \<times> number) list \<times> string list" where
  "durable w = (price_ledger w, webhookEvents w)"

definition grows :: "world \<Rightarrow> world \<Rightarrow> bool" where
  "grows w w' \<longleftrightarrow>
     prefix (price_ledger w) (price_ledger w') \<and> set (webhookEvents w) \<subseteq> set (webhookEvents w')"

text \<open>The delivery is one the handler throws on before it reads the event.\<close>

definition signatureRejected :: "WebhookDelivery \<Rightarrow> bool" where
  "signatureRejected d \<longleftrightarrow>
     wd_secretConfigured d \<and> wd_signature d \<noteq> [] \<and> wd_signature d \<noteq> ''test'' \<and> \<not> wd_signatureValid d"


text \<open>Log lines that report a write of a booking's status.\<close>

fun is_booking_update :: "log_entry \<Rightarrow> bool" where
  "is_booking_update (Log_UpdatedBooking _ _) \<longleftrightarrow> True"
| "is_booking_update (Log_UpdatedBookingBasedOn _ _ _) \<longleftrightarrow> True"
| "is_booking_update _ \<longleftrightarrow> False"

text \<open>
  The payment of a reference and its booking are both stored (\<open>linked\<close>), and both are
  PENDING (\<open>pending_pair\<close>).
\<close>

definition linked :: "string \<Rightarrow> string \<Rightarrow> world \<Rightarrow> bool" where
  "linked r i w \<longleftrightarrow>
     map_option p_bookingId (payment_findUnique_referenceNumber r w) = Some i
   \<and> booking_findUnique i w \<noteq> None"

definition pending_pair :: "string \<Rightarrow> string \<Rightarrow> world \<Rightarrow> bool" where
  "pending_pair r i w \<longleftrightarrow>
     map_option (\<lambda>p. (p_bookingId p, p_status p)) (payment_findUnique_referenceNumber r w)
       = Some (i, PY_PENDING)
   \<and> bookingStatus i w = Some BK_PENDING"

text \<open>
  The wait of the specification after attempt \<open>i\<close>, in milliseconds: \<open>min(2^i, 30)\<close>
  seconds; and the wait the poller makes after an answer that is not final, for an
  attempt that is not the last.
\<close>

definition backoff_ms :: "nat \<Rightarrow> nat" where
  "backoff_ms i = min (2 ^ i) 30 * 1000"

fun wait_after :: "gateway_response \<Rightarrow> nat \<Rightarrow> nat" where
  "wait_after (FetchFailed _) i = 5000"
| "wait_after (FetchOk _) i = backoff_ms i"

section \<open>A small instance\<close>

text \<open>
  One approved spot, owned by \<open>owner\<close>; bookings of \<open>guest\<close> on it; one payment for
  booking \<open>b1\<close>.  Times are milliseconds after midnight.
\<close>

definition t0900 :: int where "t0900 = 32400000"
definition t0901 :: int where "t0901 = 32460000"
definition t0930 :: int where "t0930 = 34200000"
definition t1000 :: int where "t1000 = 36000000"
definition t1030 :: int where "t1030 = 37800000"
definition t1100 :: int where "t1100 = 39600000"

definition exSpot :: "real \<Rightarrow> ParkingSpot" where
  "exSpot price = \<lparr> ps_id = ''spot'', ps_ownerId = ''owner'', ps_status = PK_APPROVED,
     ps_pricePerHour = Finite price \<rparr>"

definition exBooking :: "string \<Rightarrow> int \<Rightarrow> int \<Rightarrow> BookingStatus \<Rightarrow> Booking" where
  "exBooking i s e st = \<lparr> b_id = i, b_startTime = s, b_endTime = e, b_totalPrice = Finite 100,
     b_parkingSpotId = ''spot'', b_userId = ''guest'', b_status = st \<rparr>"

definition exPayment :: "PaymentStatus \<Rightarrow> Payment" where
  "exPayment st = \<lparr> p_id = ''pay'', p_referenceNumber = ''ref'', p_externalId = ''ext'',
     p_bookingId = ''b1'', p_status = st, p_paymentMethod = None \<rparr>"

definition exWorld :: "real \<Rightarrow> Booking list \<Rightarrow> Payment list \<Rightarrow> world" where
  "exWorld price bs ps = \<lparr> parkingSpots = [exSpot price], bookings = bs, payments = ps,
     webhookEvents = [], sent = [], logs = [], delays = [] \<rparr>"

definition exDto :: "int \<Rightarrow> int \<Rightarrow> CreateBookingDto" where
  "exDto s e = \<lparr> dto_parkingSpotId = ''spot'', dto_startTime = s, dto_endTime = e \<rparr>"

definition exEvent :: "string \<Rightarrow> string \<Rightarrow> WebhookEvent" where
  "exEvent kind st = \<lparr> we_event = kind, we_transactionId = ''txn'', we_fullOrderRef = Some ''ref'',
     we_externalId = ''ext'', we_status = st \<rparr>"

definition exDelivery :: "WebhookEvent \<Rightarrow> bool \<Rightarrow> WebhookDelivery" where
  "exDelivery ev rejects = \<lparr> wd_secretConfigured = True, wd_signature = ''sig'', wd_signatureValid = True,
     wd_body = Some ev, wd_lookupRejects = rejects \<rparr>"

definition exGateway :: "nat \<Rightarrow> string \<Rightarrow> nat \<Rightarrow> gateway_response" where
  "exGateway k st i =
     FetchOk \<lparr> pr_status = (if i < k then ''PENDING'' else st), pr_customer = True \<rparr>"

section \<open>Lemmas on the instance\<close>

lemmas ex_defs = t0900_def t0901_def t0930_def t1000_def t1030_def t1100_def exSpot_def exBooking_def
  exPayment_def exWorld_def exDto_def exEvent_def exDelivery_def exGateway_def

text \<open>The price of an hour at 100 per hour, for the two hours the instance uses.\<close>

lemma price_0900_1000: "computeTotalPrice 32400000 36000000 (Finite 100) = Finite 100"
  by code_simp

lemma price_0930_1030: "computeTotalPrice 34200000 37800000 (Finite 100) = Finite 100"
  by code_simp

section \<open>Lists as tables\<close>

lemma find_map_keep:
  assumes "\<And>x. P (f x) = P x"
  shows "find P (map f xs) = map_option f (find P xs)"
  by (induction xs) (simp_all add: assms)

lemma find_Some_ex: "(\<exists>x. find P xs = Some x) \<longleftrightarrow> (\<exists>x \<in> set xs. P x)"
  by (induction xs) auto

lemma find_Some_mem: "find P xs = Some x \<Longrightarrow> x \<in> set xs \<and> P x"
  by (induction xs) (auto split: if_splits)

lemma booking_update_found:
  assumes "booking_findUnique i w = Some b"
  shows "booking_update i st w =
         Some (w\<lparr>bookings := map (\<lambda>b. if b_id b = i then b\<lparr>b_status := st\<rparr> else b) (bookings w)\<rparr>)"
proof -
  have "\<exists>b \<in> set (bookings w). b_id b = i"
    using find_Some_mem[of "\<lambda>b. b_id b = i" "bookings w" b] assms
    by (auto simp: booking_findUnique_def)
  then show ?thesis by (simp add: booking_update_def)
qed

lemma booking_findUnique_updated:
  "booking_findUnique i (w\<lparr>bookings := map (\<lambda>b. if b_id b = j then b\<lparr>b_status := st\<rparr> else b) (bookings w)\<rparr>)
   = map_option (\<lambda>b. if b_id b = j then b\<lparr>b_status := st\<rparr> else b) (booking_findUnique i w)"
  by (simp add: booking_findUnique_def find_map_keep)

lemma payment_update_id_found:
  assumes "p \<in> set (payments w)"
  shows "payment_update_id (p_id p) st w =
         Some (w\<lparr>payments := map (\<lambda>q. if p_id q = p_id p then q\<lparr>p_status := st\<rparr> else q) (payments w)\<rparr>)"
  using assms by (auto simp: payment_update_id_def)

section \<open>Creating a booking\<close>

lemma conflict_overlapClause:
  "conflict s e (b_startTime b) (b_endTime b) \<Longrightarrow> overlapClause s e b"
  unfolding overlapClause_def conflict_def by auto

lemma overlapClause_conflict:
  assumes "s < e" and "b_startTime b < b_endTime b" and "overlapClause s e b"
  shows "conflict s e (b_startTime b) (b_endTime b)"
  using assms unfolding overlapClause_def conflict_def by auto

lemma overlappingWhere_iff:
  assumes "s < e" and "b_startTime b < b_endTime b"
  shows "overlappingWhere spot s e b \<longleftrightarrow>
         b_parkingSpotId b = spot \<and> active b \<and> conflict s e (b_startTime b) (b_endTime b)"
  using overlapClause_conflict[OF assms] conflict_overlapClause[of s e b]
  by (cases "b_status b") (auto simp: overlappingWhere_def active_def)

lemma create_check_valid:
  assumes "parkingSpot_findUnique (dto_parkingSpotId dto) w = Some spot"
    and "ps_status spot = PK_APPROVED" and "ps_ownerId spot \<noteq> userId"
    and "dto_startTime dto < dto_endTime dto" and "now \<le> dto_startTime dto"
  shows "create_check w now dto userId newId =
     (case find (overlappingWhere (dto_parkingSpotId dto) (dto_startTime dto) (dto_endTime dto)) (bookings w) of
        Some overlappingBooking \<Rightarrow> Inl (BadRequestException ''This time slot is already booked'')
      | None \<Rightarrow> Inr \<lparr> b_id = newId, b_startTime = dto_startTime dto, b_endTime = dto_endTime dto,
                  b_totalPrice = computeTotalPrice (dto_startTime dto) (dto_endTime dto) (ps_pricePerHour spot),
                  b_parkingSpotId = dto_parkingSpotId dto, b_userId = userId, b_status = BK_PENDING \<rparr>)"
  using assms by (simp add: create_check_def)

lemma create_check_Inr:
  assumes "create_check w now dto userId newId = Inr b"
  shows "\<exists>spot. parkingSpot_findUnique (dto_parkingSpotId dto) w = Some spot
          \<and> ps_status spot = PK_APPROVED \<and> ps_ownerId spot \<noteq> userId
          \<and> dto_startTime dto < dto_endTime dto \<and> now \<le> dto_startTime dto
          \<and> find (overlappingWhere (dto_parkingSpotId dto) (dto_startTime dto) (dto_endTime dto)) (bookings w) = None
          \<and> b_id b = newId \<and> b_startTime b = dto_startTime dto \<and> b_endTime b = dto_endTime dto
          \<and> b_totalPrice b = computeTotalPrice (dto_startTime dto) (dto_endTime dto) (ps_pricePerHour spot)
          \<and> b_parkingSpotId b = dto_parkingSpotId dto \<and> b_userId b = userId \<and> b_status b = BK_PENDING"
  using assms by (auto simp: create_check_def split: option.splits if_splits)

lemma no_double_booking_snoc:
  "no_double_booking (bs @ [b]) \<longleftrightarrow> no_double_booking bs \<and> list_all (\<lambda>c. \<not> clash c b) bs"
  by (induction bs) auto

lemma create_check_no_clash:
  assumes "create_check w now dto userId newId = Inr b" and "c \<in> set (bookings w)"
  shows "\<not> clash c b"
proof
  assume cl: "clash c b"
  from create_check_Inr[OF assms(1)] have
    none: "find (overlappingWhere (dto_parkingSpotId dto) (dto_startTime dto) (dto_endTime dto)) (bookings w) = None"
    and b: "b_startTime b = dto_startTime dto" "b_endTime b = dto_endTime dto"
           "b_parkingSpotId b = dto_parkingSpotId dto"
    by auto
  from cl b have "b_parkingSpotId c = dto_parkingSpotId dto" and "active c"
    and "conflict (dto_startTime dto) (dto_endTime dto) (b_startTime c) (b_endTime c)"
    by (auto simp: clash_def conflict_def)
  then have "overlappingWhere (dto_parkingSpotId dto) (dto_startTime dto) (dto_endTime dto) c"
    using conflict_overlapClause[of "dto_startTime dto" "dto_endTime dto" c]
    by (cases "b_status c") (auto simp: overlappingWhere_def active_def)
  with none assms(2) show False by (auto simp: find_None_iff)
qed

lemma create_keeps_invariants:
  assumes "intervals_ok w" and "no_double_booking (bookings w)"
  shows "intervals_ok (snd (create w now dto userId newId))
       \<and> no_double_booking (bookings (snd (create w now dto userId newId)))"
proof (cases "create_check w now dto userId newId")
  case (Inl e)
  then show ?thesis using assms by (simp add: create_def)
next
  case (Inr b)
  from create_check_Inr[OF Inr] have "b_startTime b < b_endTime b" by auto
  moreover have "list_all (\<lambda>c. \<not> clash c b) (bookings w)"
    using create_check_no_clash[OF Inr] by (simp add: list_all_iff)
  ultimately show ?thesis
    using assms Inr by (simp add: create_def create_insert_def intervals_ok_def no_double_booking_snoc)
qed

lemma create_second_rejected:
  assumes c1: "create w now1 dto1 u1 n1 = (Inr b1, w1)"
    and spot: "dto_parkingSpotId dto2 = dto_parkingSpotId dto1"
    and cf: "conflict (dto_startTime dto1) (dto_endTime dto1) (dto_startTime dto2) (dto_endTime dto2)"
  shows "\<exists>e. create w1 now2 dto2 u2 n2 = (Inl e, w1)"
    and "parkingSpot_findUnique (dto_parkingSpotId dto2) w = Some sp \<Longrightarrow> ps_ownerId sp \<noteq> u2 \<Longrightarrow>
         dto_startTime dto2 < dto_endTime dto2 \<Longrightarrow> now2 \<le> dto_startTime dto2 \<Longrightarrow>
         create w1 now2 dto2 u2 n2 = (Inl (BadRequestException ''This time slot is already booked''), w1)"
proof -
  from c1 have chk: "create_check w now1 dto1 u1 n1 = Inr b1" and w1: "w1 = create_insert b1 w"
    by (auto simp: create_def split: sum.splits)
  from create_check_Inr[OF chk] obtain spot1 where
    sp1: "parkingSpot_findUnique (dto_parkingSpotId dto1) w = Some spot1" "ps_status spot1 = PK_APPROVED"
    and b1: "b_startTime b1 = dto_startTime dto1" "b_endTime b1 = dto_endTime dto1"
       "b_parkingSpotId b1 = dto_parkingSpotId dto1" "b_status b1 = BK_PENDING"
    by auto
  have "overlapClause (dto_startTime dto2) (dto_endTime dto2) b1"
    using cf b1 conflict_overlapClause[of "dto_startTime dto2" "dto_endTime dto2" b1]
    by (simp add: conflict_def)
  then have "overlappingWhere (dto_parkingSpotId dto2) (dto_startTime dto2) (dto_endTime dto2) b1"
    using b1 spot by (simp add: overlappingWhere_def)
  moreover have "b1 \<in> set (bookings w1)" by (simp add: w1 create_insert_def)
  ultimately have ex: "\<exists>x. find (overlappingWhere (dto_parkingSpotId dto2) (dto_startTime dto2) (dto_endTime dto2))
                        (bookings w1) = Some x"
    unfolding find_Some_ex by blast
  have spots: "parkingSpot_findUnique i w1 = parkingSpot_findUnique i w" for i
    by (simp add: w1 create_insert_def parkingSpot_findUnique_def)
  show "\<exists>e. create w1 now2 dto2 u2 n2 = (Inl e, w1)"
    using ex sp1 spot by (auto simp: create_def create_check_def spots)
  show "create w1 now2 dto2 u2 n2 = (Inl (BadRequestException ''This time slot is already booked''), w1)"
    if "parkingSpot_findUnique (dto_parkingSpotId dto2) w = Some sp" "ps_ownerId sp \<noteq> u2"
       "dto_startTime dto2 < dto_endTime dto2" "now2 \<le> dto_startTime dto2"
    using that ex sp1 spot by (auto simp: create_def create_check_def spots)
qed

lemma run_two_sequential:
  "run_two [False, False, True, True] (Requested now1 dto1 u1 n1, Requested now2 dto2 u2 n2, w) =
     (Returned (fst (create w now1 dto1 u1 n1)),
      Returned (fst (create (snd (create w now1 dto1 u1 n1)) now2 dto2 u2 n2)),
      snd (create (snd (create w now1 dto1 u1 n1)) now2 dto2 u2 n2))"
  by (simp add: create_def split: sum.splits)

text \<open>
  C1.  Take a request that passes the validations placed before the overlap query (the
  spot exists, is approved, is not the requester's own, the interval is not empty and
  does not start in the past), on a table whose stored intervals are not empty.  It is
  turned away with the message ``This time slot is already booked'' exactly when some
  stored booking on the same spot is PENDING or CONFIRMED and its interval \<open>[s2, e2)\<close>
  satisfies \<open>s1 < e2\<close> and \<open>s2 < e1\<close>.  A booking that the overlap query matches is never
  CANCELLED or COMPLETED and never adjacent to the request.
\<close>

theorem create_conflict_iff:
  assumes "parkingSpot_findUnique (dto_parkingSpotId dto) w = Some spot"
    and "ps_status spot = PK_APPROVED" and "ps_ownerId spot \<noteq> userId"
    and "dto_startTime dto < dto_endTime dto" and "now \<le> dto_startTime dto"
    and "intervals_ok w"
  shows "(fst (create w now dto userId newId) = Inl (BadRequestException ''This time slot is already booked'')
          \<longleftrightarrow> (\<exists>b \<in> set (bookings w). b_parkingSpotId b = dto_parkingSpotId dto \<and> active b
                 \<and> conflict (dto_startTime dto) (dto_endTime dto) (b_startTime b) (b_endTime b)))
       \<and> (\<forall>b \<in> set (bookings w).
             overlappingWhere (dto_parkingSpotId dto) (dto_startTime dto) (dto_endTime dto) b
             \<longrightarrow> \<not> terminal b \<and> b_endTime b \<noteq> dto_startTime dto \<and> b_startTime b \<noteq> dto_endTime dto)"
proof -
  let ?P = "overlappingWhere (dto_parkingSpotId dto) (dto_startTime dto) (dto_endTime dto)"
  let ?rejected = "fst (create w now dto userId newId)
                     = Inl (BadRequestException ''This time slot is already booked'')"
  have ok: "b_startTime b < b_endTime b" if "b \<in> set (bookings w)" for b
    using assms(6) that by (simp add: intervals_ok_def list_all_iff)
  have P: "?P b \<longleftrightarrow> b_parkingSpotId b = dto_parkingSpotId dto \<and> active b
              \<and> conflict (dto_startTime dto) (dto_endTime dto) (b_startTime b) (b_endTime b)"
    if "b \<in> set (bookings w)" for b
    using overlappingWhere_iff[OF assms(4) ok[OF that]] .
  have "?rejected \<longleftrightarrow> (\<exists>b. find ?P (bookings w) = Some b)"
    by (simp add: create_def create_check_valid[OF assms(1-5)] split: option.splits)
  also have "\<dots> \<longleftrightarrow> (\<exists>b \<in> set (bookings w). ?P b)"
    by (rule find_Some_ex)
  also have "\<dots> \<longleftrightarrow> (\<exists>b \<in> set (bookings w). b_parkingSpotId b = dto_parkingSpotId dto \<and> active b
                 \<and> conflict (dto_startTime dto) (dto_endTime dto) (b_startTime b) (b_endTime b))"
    using P by blast
  finally have first: "?rejected \<longleftrightarrow> (\<exists>b \<in> set (bookings w). b_parkingSpotId b = dto_parkingSpotId dto \<and> active b
                 \<and> conflict (dto_startTime dto) (dto_endTime dto) (b_startTime b) (b_endTime b))" .
  have second: "\<forall>b \<in> set (bookings w). ?P b
             \<longrightarrow> \<not> terminal b \<and> b_endTime b \<noteq> dto_startTime dto \<and> b_startTime b \<noteq> dto_endTime dto"
    using P by (auto simp: active_def terminal_def conflict_def)
  show ?thesis using first second by blast
qed

text \<open>
  C1, an instance.  The spot holds a confirmed booking 09:00--10:00 and a cancelled one
  10:00--11:00.  A request for 09:30--10:30 is turned away; a request for 10:00--11:00,
  adjacent to the first and on top of the cancelled one, is accepted.
\<close>

theorem create_conflict_iff_witness:
  "intervals_ok (exWorld 100 [exBooking ''b1'' t0900 t1000 BK_CONFIRMED, exBooking ''b0'' t1000 t1100 BK_CANCELLED] [])
   \<and> fst (create (exWorld 100 [exBooking ''b1'' t0900 t1000 BK_CONFIRMED, exBooking ''b0'' t1000 t1100 BK_CANCELLED] [])
        0 (exDto t0930 t1030) ''friend'' ''b2'')
     = Inl (BadRequestException ''This time slot is already booked'')
   \<and> fst (create (exWorld 100 [exBooking ''b1'' t0900 t1000 BK_CONFIRMED, exBooking ''b0'' t1000 t1100 BK_CANCELLED] [])
        0 (exDto t1000 t1100) ''friend'' ''b2'')
     \<noteq> Inl (BadRequestException ''This time slot is already booked'')"
proof -
  let ?w = "exWorld 100 [exBooking ''b1'' t0900 t1000 BK_CONFIRMED, exBooking ''b0'' t1000 t1100 BK_CANCELLED] []"
  have sp: "parkingSpot_findUnique (dto_parkingSpotId (exDto s e)) ?w = Some (exSpot 100)" for s e
    by (simp add: exDto_def exWorld_def exSpot_def parkingSpot_findUnique_def)
  have ap: "ps_status (exSpot 100) = PK_APPROVED" and ow: "ps_ownerId (exSpot 100) \<noteq> ''friend''"
    by (simp_all add: exSpot_def)
  have iv: "intervals_ok ?w"
    by (simp add: intervals_ok_def exWorld_def exBooking_def t0900_def t1000_def t1100_def)
  have d1: "dto_startTime (exDto t0930 t1030) < dto_endTime (exDto t0930 t1030)"
    and n1: "0 \<le> dto_startTime (exDto t0930 t1030)"
    and d2: "dto_startTime (exDto t1000 t1100) < dto_endTime (exDto t1000 t1100)"
    and n2: "0 \<le> dto_startTime (exDto t1000 t1100)"
    by (simp_all add: exDto_def t0930_def t1030_def t1000_def t1100_def)
  have bs: "bookings ?w = [exBooking ''b1'' t0900 t1000 BK_CONFIRMED, exBooking ''b0'' t1000 t1100 BK_CANCELLED]"
    by (simp add: exWorld_def)
  have A: "fst (create ?w 0 (exDto t0930 t1030) ''friend'' ''b2'')
             = Inl (BadRequestException ''This time slot is already booked'')"
    using create_conflict_iff[OF sp ap ow d1 n1 iv, of "''b2''"] unfolding bs
    by (simp add: exDto_def exBooking_def active_def conflict_def t0900_def t0930_def t1000_def t1030_def t1100_def)
  have B: "fst (create ?w 0 (exDto t1000 t1100) ''friend'' ''b2'')
             \<noteq> Inl (BadRequestException ''This time slot is already booked'')"
    using create_conflict_iff[OF sp ap ow d2 n2 iv, of "''b2''"] unfolding bs
    by (simp add: exDto_def exBooking_def active_def conflict_def t0900_def t0930_def t1000_def t1030_def t1100_def)
  show ?thesis using iv A B by blast
qed

text \<open>
  C2, as the code has it.  When the second of two requests for overlapping intervals on
  one spot starts after the first has returned, at most one of them succeeds; if the
  first succeeds and the second passes the validations, the second is turned away with
  ``This time slot is already booked''; and a table without double bookings stays so.
\<close>

theorem sequential_creates_never_double_book:
  assumes "intervals_ok w" and "no_double_booking (bookings w)"
    and "dto_parkingSpotId dto2 = dto_parkingSpotId dto1"
    and "conflict (dto_startTime dto1) (dto_endTime dto1) (dto_startTime dto2) (dto_endTime dto2)"
  shows "\<exists>r1 r2 w'.
           run_two [False, False, True, True]
             (Requested now1 dto1 u1 n1, Requested now2 dto2 u2 n2, w) = (Returned r1, Returned r2, w')
         \<and> (isl r1 \<or> isl r2)
         \<and> (\<not> isl r1 \<and> parkingSpot_findUnique (dto_parkingSpotId dto2) w = Some sp \<and> ps_ownerId sp \<noteq> u2
              \<and> dto_startTime dto2 < dto_endTime dto2 \<and> now2 \<le> dto_startTime dto2
            \<longrightarrow> r2 = Inl (BadRequestException ''This time slot is already booked''))
         \<and> intervals_ok w' \<and> no_double_booking (bookings w')"
proof -
  let ?c1 = "create w now1 dto1 u1 n1"
  let ?c2 = "create (snd ?c1) now2 dto2 u2 n2"
  have inv1: "intervals_ok (snd ?c1) \<and> no_double_booking (bookings (snd ?c1))"
    using create_keeps_invariants[OF assms(1,2)] .
  then have inv2: "intervals_ok (snd ?c2) \<and> no_double_booking (bookings (snd ?c2))"
    using create_keeps_invariants by blast
  have one: "isl (fst ?c1) \<or> isl (fst ?c2)"
  proof (cases "fst ?c1")
    case (Inl e) then show ?thesis by simp
  next
    case (Inr b1)
    then have "?c1 = (Inr b1, snd ?c1)" by (metis prod.collapse)
    from create_second_rejected(1)[OF this assms(3,4)] show ?thesis by (metis fst_conv isl_def)
  qed
  have two: "\<not> isl (fst ?c1) \<and> parkingSpot_findUnique (dto_parkingSpotId dto2) w = Some sp \<and> ps_ownerId sp \<noteq> u2
              \<and> dto_startTime dto2 < dto_endTime dto2 \<and> now2 \<le> dto_startTime dto2
            \<longrightarrow> fst ?c2 = Inl (BadRequestException ''This time slot is already booked'')"
  proof (cases "fst ?c1")
    case (Inl e) then show ?thesis by simp
  next
    case (Inr b1)
    then have "?c1 = (Inr b1, snd ?c1)" by (metis prod.collapse)
    from create_second_rejected(2)[OF this assms(3,4)] show ?thesis by auto
  qed
  show ?thesis
    unfolding run_two_sequential using one two inv2 by blast
qed

text \<open>C2, an instance of the sequential schedule: the first request books 09:00--10:00, the
  second, for 09:30--10:30, is turned away.\<close>

theorem sequential_creates_never_double_book_witness:
  "intervals_ok (exWorld 100 [] []) \<and> no_double_booking (bookings (exWorld 100 [] []))
   \<and> conflict t0900 t1000 t0930 t1030
   \<and> run_two [False, False, True, True]
       (Requested 0 (exDto t0900 t1000) ''guest'' ''b1'', Requested 0 (exDto t0930 t1030) ''friend'' ''b2'',
        exWorld 100 [] [])
     = (Returned (Inr (exBooking ''b1'' t0900 t1000 BK_PENDING)),
        Returned (Inl (BadRequestException ''This time slot is already booked'')),
        exWorld 100 [exBooking ''b1'' t0900 t1000 BK_PENDING] [])"
  using sequential_creates_never_double_book[of "exWorld 100 [] []" "exDto t0930 t1030" "exDto t0900 t1000"
      0 "''guest''" "''b1''" 0 "''friend''" "''b2''" "exSpot 100"]
  by (simp add: ex_defs create_check_def create_insert_def parkingSpot_findUnique_def price_0900_1000
      price_0930_1030 conflict_def intervals_ok_def overlappingWhere_def overlapClause_def)

text \<open>
  C2 as stated fails: the overlap query and the insert are separate awaited calls, so
  both requests can pass the query before either inserts.  Under the schedule check,
  check, insert, insert on an empty table both requests succeed and the table holds two
  PENDING bookings, 09:00--10:00 and 09:30--10:30, on the same spot.
\<close>

theorem interleaved_creates_double_book:
  "run_two [False, True, False, True]
     (Requested 0 (exDto t0900 t1000) ''guest'' ''b1'', Requested 0 (exDto t0930 t1030) ''friend'' ''b2'',
      exWorld 100 [] [])
   = (Returned (Inr ((exBooking ''b1'' t0900 t1000 BK_PENDING))),
      Returned (Inr ((exBooking ''b2'' t0930 t1030 BK_PENDING)\<lparr>b_userId := ''friend''\<rparr>)),
      exWorld 100 [exBooking ''b1'' t0900 t1000 BK_PENDING,
                   (exBooking ''b2'' t0930 t1030 BK_PENDING)\<lparr>b_userId := ''friend''\<rparr>] [])
   \<and> clash (exBooking ''b1'' t0900 t1000 BK_PENDING) ((exBooking ''b2'' t0930 t1030 BK_PENDING)\<lparr>b_userId := ''friend''\<rparr>)
   \<and> conflict t0900 t1000 t0930 t1030"
  by (simp add: ex_defs create_check_def create_insert_def parkingSpot_findUnique_def price_0900_1000
      price_0930_1030 clash_def active_def conflict_def)

section \<open>Cancelling a booking\<close>

lemma findOne_requester:
  assumes "booking_findUnique i w = Some b" and "b_userId b = userId"
  shows "findOne i userId w = Inr (b, payment_findUnique_bookingId i w)"
  using assms by (simp add: findOne_def)

lemma cancel_pending_pair:
  assumes b: "booking_findUnique i w = Some b" and u: "b_userId b = userId"
    and st: "b_status b = BK_PENDING"
    and p: "payment_findUnique_bookingId i w = Some p" and pst: "p_status p = PY_PENDING"
  shows "fst (cancel i userId w) = Inr (b\<lparr>b_status := BK_CANCELLED\<rparr>)
       \<and> bookingStatus i (snd (cancel i userId w)) = Some BK_CANCELLED
       \<and> map_option p_status (payment_findUnique_bookingId i (snd (cancel i userId w))) = Some PY_CANCELLED"
proof -
  let ?g = "\<lambda>q. if p_id q = p_id p then q\<lparr>p_status := PY_CANCELLED\<rparr> else q"
  let ?w1 = "w\<lparr>payments := map ?g (payments w)\<rparr>"
  let ?h = "\<lambda>b. if b_id b = i then b\<lparr>b_status := BK_CANCELLED\<rparr> else b"
  let ?w2 = "?w1\<lparr>bookings := map ?h (bookings ?w1)\<rparr>"
  have pin: "p \<in> set (payments w)"
    using p find_Some_mem[of "\<lambda>p. p_bookingId p = i" "payments w" p]
    by (simp add: payment_findUnique_bookingId_def)
  have part: "cancel_payment_part i (Some p) w = Inr ?w1"
    using p pst payment_update_id_found[OF pin]
    by (simp add: cancel_payment_part_def)
  have b1: "booking_findUnique i ?w1 = Some b"
    using b by (simp add: booking_findUnique_def)
  have upd: "booking_update i BK_CANCELLED ?w1 = Some ?w2"
    using booking_update_found[OF b1] .
  have c: "cancel i userId w = (Inr (b\<lparr>b_status := BK_CANCELLED\<rparr>), ?w2)"
    using findOne_requester[OF b u] u st p part upd
    by (simp add: cancel_def)
  have bid: "b_id b = i"
    using b find_Some_mem[of "\<lambda>b. b_id b = i" "bookings w" b]
    by (simp add: booking_findUnique_def)
  have s1: "bookingStatus i ?w2 = Some BK_CANCELLED"
    using b1 bid by (simp add: bookingStatus_def booking_findUnique_def find_map_keep)
  have "payment_findUnique_bookingId i ?w2 = map_option ?g (payment_findUnique_bookingId i w)"
    by (simp add: payment_findUnique_bookingId_def find_map_keep)
  then have s2: "map_option p_status (payment_findUnique_bookingId i ?w2) = Some PY_CANCELLED"
    using p by simp
  show ?thesis using c s1 s2 by simp
qed

lemma cancel_terminal:
  assumes b: "booking_findUnique i w = Some b" and u: "b_userId b = userId"
  shows "b_status b = BK_CANCELLED \<Longrightarrow>
           cancel i userId w = (Inl (BadRequestException ''Booking is already cancelled''), w)"
    and "b_status b = BK_COMPLETED \<Longrightarrow>
           cancel i userId w = (Inl (BadRequestException ''Cannot cancel a completed booking''), w)"
  using findOne_requester[OF b u] u by (simp_all add: cancel_def)

text \<open>
  C7.  When the requester cancels a PENDING booking whose payment is PENDING, the one
  call sets both to CANCELLED.  Cancelling a booking that is already CANCELLED, or
  COMPLETED, throws (``Booking is already cancelled'', ``Cannot cancel a completed
  booking'') and leaves the world as it was.
\<close>

theorem cancel_cancels_both_or_rejects:
  assumes "booking_findUnique i w = Some b" and "b_userId b = userId"
  shows "(b_status b = BK_PENDING \<and> payment_findUnique_bookingId i w = Some p \<and> p_status p = PY_PENDING
            \<longrightarrow> fst (cancel i userId w) = Inr (b\<lparr>b_status := BK_CANCELLED\<rparr>)
              \<and> bookingStatus i (snd (cancel i userId w)) = Some BK_CANCELLED
              \<and> map_option p_status (payment_findUnique_bookingId i (snd (cancel i userId w)))
                  = Some PY_CANCELLED)
       \<and> (b_status b = BK_CANCELLED
            \<longrightarrow> cancel i userId w = (Inl (BadRequestException ''Booking is already cancelled''), w))
       \<and> (b_status b = BK_COMPLETED
            \<longrightarrow> cancel i userId w = (Inl (BadRequestException ''Cannot cancel a completed booking''), w))"
  using cancel_pending_pair[OF assms] cancel_terminal[OF assms] by blast

text \<open>C7, on the instance: a pending pair, a cancelled booking, a completed booking.\<close>

theorem cancel_cancels_both_or_rejects_witness:
  "fst (cancel ''b1'' ''guest'' (exWorld 100 [exBooking ''b1'' t0900 t1000 BK_PENDING] [exPayment PY_PENDING]))
     = Inr (exBooking ''b1'' t0900 t1000 BK_CANCELLED)
   \<and> bookingStatus ''b1'' (snd (cancel ''b1'' ''guest''
        (exWorld 100 [exBooking ''b1'' t0900 t1000 BK_PENDING] [exPayment PY_PENDING]))) = Some BK_CANCELLED
   \<and> map_option p_status (payment_findUnique_bookingId ''b1'' (snd (cancel ''b1'' ''guest''
        (exWorld 100 [exBooking ''b1'' t0900 t1000 BK_PENDING] [exPayment PY_PENDING])))) = Some PY_CANCELLED
   \<and> cancel ''b1'' ''guest'' (exWorld 100 [exBooking ''b1'' t0900 t1000 BK_CANCELLED] [exPayment PY_CANCELLED])
     = (Inl (BadRequestException ''Booking is already cancelled''),
        exWorld 100 [exBooking ''b1'' t0900 t1000 BK_CANCELLED] [exPayment PY_CANCELLED])
   \<and> cancel ''b1'' ''guest'' (exWorld 100 [exBooking ''b1'' t0900 t1000 BK_COMPLETED] [exPayment PY_SUCCEEDED])
     = (Inl (BadRequestException ''Cannot cancel a completed booking''),
        exWorld 100 [exBooking ''b1'' t0900 t1000 BK_COMPLETED] [exPayment PY_SUCCEEDED])"
  using
    cancel_cancels_both_or_rejects[of "''b1''" "exWorld 100 [exBooking ''b1'' t0900 t1000 BK_PENDING] [exPayment PY_PENDING]"
      "exBooking ''b1'' t0900 t1000 BK_PENDING" "''guest''" "exPayment PY_PENDING"]
    cancel_cancels_both_or_rejects[of "''b1''" "exWorld 100 [exBooking ''b1'' t0900 t1000 BK_CANCELLED] [exPayment PY_CANCELLED]"
      "exBooking ''b1'' t0900 t1000 BK_CANCELLED" "''guest''" "exPayment PY_CANCELLED"]
    cancel_cancels_both_or_rejects[of "''b1''" "exWorld 100 [exBooking ''b1'' t0900 t1000 BK_COMPLETED] [exPayment PY_SUCCEEDED]"
      "exBooking ''b1'' t0900 t1000 BK_COMPLETED" "''guest''" "exPayment PY_SUCCEEDED"]
  by (simp add: booking_findUnique_def payment_findUnique_bookingId_def exWorld_def exBooking_def exPayment_def)

section \<open>Reconciling a reported status\<close>

lemma payment_update_referenceNumber_found:
  assumes "payment_findUnique_referenceNumber r w = Some p"
  shows "payment_update_referenceNumber r f w =
         Some (w\<lparr>payments := map (\<lambda>q. if p_referenceNumber q = r then f q else q) (payments w)\<rparr>)"
proof -
  have "\<exists>q \<in> set (payments w). p_referenceNumber q = r"
    using find_Some_mem[of "\<lambda>q. p_referenceNumber q = r" "payments w" p] assms
    by (auto simp: payment_findUnique_referenceNumber_def)
  then show ?thesis by (simp add: payment_update_referenceNumber_def)
qed

lemma payment_findUnique_referenceNumber_updated:
  assumes "\<And>q. p_referenceNumber (f q) = p_referenceNumber q"
  shows "payment_findUnique_referenceNumber r
           (w\<lparr>payments := map (\<lambda>q. if p_referenceNumber q = r' then f q else q) (payments w)\<rparr>)
         = map_option (\<lambda>q. if p_referenceNumber q = r' then f q else q) (payment_findUnique_referenceNumber r w)"
  by (simp add: payment_findUnique_referenceNumber_def find_map_keep assms)

lemma payment_found_key:
  "payment_findUnique_referenceNumber r w = Some p \<Longrightarrow> p_referenceNumber p = r"
  using find_Some_mem[of "\<lambda>q. p_referenceNumber q = r" "payments w" p]
  by (simp add: payment_findUnique_referenceNumber_def)

lemma booking_found_key:
  "booking_findUnique i w = Some b \<Longrightarrow> b_id b = i"
  using find_Some_mem[of "\<lambda>b. b_id b = i" "bookings w" b]
  by (simp add: booking_findUnique_def)

lemma bookingStatus_set:
  assumes "booking_findUnique i w = Some b"
  shows "map_option b_status (find (\<lambda>b. b_id b = i)
           (map (\<lambda>b. if b_id b = i then b\<lparr>b_status := st\<rparr> else b) (bookings w))) = Some st"
  using assms booking_found_key[OF assms] by (simp add: booking_findUnique_def find_map_keep)

lemma PaymentStatusService_updateBookingStatus_found:
  assumes p: "payment_findUnique_referenceNumber r w = Some p"
    and b: "switch_bookingStatus st = None \<or> (\<exists>b. booking_findUnique (p_bookingId p) w = Some b)"
  shows "fst (PaymentStatusService_updateBookingStatus r st w) = Inr ()"
      (is ?thesis1)
    and "bookings (snd (PaymentStatusService_updateBookingStatus r st w)) =
           (case switch_bookingStatus st of
              None \<Rightarrow> bookings w
            | Some s \<Rightarrow> map (\<lambda>b. if b_id b = p_bookingId p then b\<lparr>b_status := s\<rparr> else b) (bookings w))"
      (is ?thesis2)
    and "payments (snd (PaymentStatusService_updateBookingStatus r st w)) = payments w"
      (is ?thesis3)
    and "webhookEvents (snd (PaymentStatusService_updateBookingStatus r st w)) = webhookEvents w"
      (is ?thesis4)
    and "sent (snd (PaymentStatusService_updateBookingStatus r st w)) =
           sent w @ (if st = ''SUCCEEDED''
                     then [SendBookingConfirmationEmail (p_bookingId p), SendGuestConfirmationEmail (p_bookingId p)]
                     else [])"
      (is ?thesis5)
    and "logs (snd (PaymentStatusService_updateBookingStatus r st w)) =
           logs w @ (case switch_bookingStatus st of
                       None \<Rightarrow> []
                     | Some s \<Rightarrow> [Log_UpdatedBooking (p_bookingId p) s])"
      (is ?thesis6)
proof -
  consider (none) "switch_bookingStatus st = None"
    | (some) b' where "booking_findUnique (p_bookingId p) w = Some b'"
    using b by auto
  then have all: "?thesis1 \<and> ?thesis2 \<and> ?thesis3 \<and> ?thesis4 \<and> ?thesis5 \<and> ?thesis6"
  proof cases
    case none
    then have "st \<noteq> ''SUCCEEDED''" by (auto simp: switch_bookingStatus_def)
    with none p show ?thesis
      by (simp add: PaymentStatusService_updateBookingStatus_def)
  next
    case some
    with p booking_update_found[OF some] show ?thesis
      by (simp add: PaymentStatusService_updateBookingStatus_def Let_def log_def
            sendBookingConfirmationEmail_def sendGuestConfirmationEmail_def switch_bookingStatus_def
          split: option.splits)
  qed
  show ?thesis1 and ?thesis2 and ?thesis3 and ?thesis4 and ?thesis5 and ?thesis6
    using all by blast+
qed

lemma PaymentService_updateBookingStatus_found:
  assumes p: "payment_findUnique_referenceNumber r w = Some p"
    and b: "switch_bookingStatus st = None \<or> (\<exists>b. booking_findUnique (p_bookingId p) w = Some b)"
  shows "fst (PaymentService_updateBookingStatus r st w) = Inr ()"
      (is ?thesis1)
    and "bookings (snd (PaymentService_updateBookingStatus r st w)) =
           (case switch_bookingStatus st of
              None \<Rightarrow> bookings w
            | Some s \<Rightarrow> map (\<lambda>b. if b_id b = p_bookingId p then b\<lparr>b_status := s\<rparr> else b) (bookings w))"
      (is ?thesis2)
    and "payments (snd (PaymentService_updateBookingStatus r st w)) = payments w"
      (is ?thesis3)
    and "webhookEvents (snd (PaymentService_updateBookingStatus r st w)) = webhookEvents w"
      (is ?thesis4)
    and "sent (snd (PaymentService_updateBookingStatus r st w)) =
           sent w @ (if st = ''SUCCEEDED'' then [SendBookingConfirmationEmail (p_bookingId p)] else [])"
      (is ?thesis5)
    and "delays (snd (PaymentService_updateBookingStatus r st w)) = delays w"
      (is ?thesis6)
    and "logs (snd (PaymentService_updateBookingStatus r st w)) =
           logs w @ (case switch_bookingStatus st of
                       None \<Rightarrow> []
                     | Some s \<Rightarrow> Log_UpdatedBookingBasedOn (p_bookingId p) s st
                                  # (if st = ''SUCCEEDED'' then [Err_FailedToSendGuestEmail] else []))"
      (is ?thesis7)
proof -
  consider (none) "switch_bookingStatus st = None"
    | (some) b' where "booking_findUnique (p_bookingId p) w = Some b'"
    using b by auto
  then have all: "?thesis1 \<and> ?thesis2 \<and> ?thesis3 \<and> ?thesis4 \<and> ?thesis5 \<and> ?thesis6 \<and> ?thesis7"
  proof cases
    case none
    then have "st \<noteq> ''SUCCEEDED''" by (auto simp: switch_bookingStatus_def)
    with none p show ?thesis
      by (simp add: PaymentService_updateBookingStatus_def)
  next
    case some
    with p booking_update_found[OF some] show ?thesis
      by (simp add: PaymentService_updateBookingStatus_def Let_def log_def
            sendBookingConfirmationEmail_def PaymentService_sendGuestConfirmationEmail_def
            switch_bookingStatus_def
          split: option.splits)
  qed
  show ?thesis1 and ?thesis2 and ?thesis3 and ?thesis4 and ?thesis5 and ?thesis6 and ?thesis7
    using all by blast+
qed

lemma updatePaymentStatusFromAPI_found:
  assumes p: "payment_findUnique_referenceNumber r w = Some p"
    and b: "switch_bookingStatus (st) = None \<or> (\<exists>b. booking_findUnique (p_bookingId p) w = Some b)"
  shows "fst (updatePaymentStatusFromAPI r st w) = Success"
    and "bookings (snd (updatePaymentStatusFromAPI r st w)) =
           (case switch_bookingStatus st of
              None \<Rightarrow> bookings w
            | Some s \<Rightarrow> map (\<lambda>b. if b_id b = p_bookingId p then b\<lparr>b_status := s\<rparr> else b) (bookings w))"
    and "payments (snd (updatePaymentStatusFromAPI r st w)) =
           map (\<lambda>q. if p_referenceNumber q = r
                     then q\<lparr>p_status := (if st = ''SUCCEEDED'' then PY_SUCCEEDED
                                          else if st = ''FAILED'' then PY_FAILED
                                          else if st = ''CANCELLED'' then PY_CANCELLED
                                          else PY_PENDING)\<rparr>
                     else q) (payments w)"
    and "webhookEvents (snd (updatePaymentStatusFromAPI r st w)) = webhookEvents w"
    and "sent (snd (updatePaymentStatusFromAPI r st w)) =
           sent w @ (if st = ''SUCCEEDED''
                     then [SendBookingConfirmationEmail (p_bookingId p), SendGuestConfirmationEmail (p_bookingId p)]
                     else [])"
    and "logs (snd (updatePaymentStatusFromAPI r st w)) =
           logs w @ [Log_UpdatingPayment r st]
             @ (case switch_bookingStatus st of
                  None \<Rightarrow> []
                | Some s \<Rightarrow> [Log_UpdatedBooking (p_bookingId p) s])
             @ [Log_UpdatedPayment r st]"
proof -
  let ?f = "\<lambda>q. q\<lparr>p_status := (if st = ''SUCCEEDED'' then PY_SUCCEEDED
                                else if st = ''FAILED'' then PY_FAILED
                                else if st = ''CANCELLED'' then PY_CANCELLED
                                else PY_PENDING)\<rparr>"
  let ?g = "\<lambda>q. if p_referenceNumber q = r then ?f q else q"
  let ?w0 = "log (Log_UpdatingPayment r st) w"
  let ?w1 = "?w0\<lparr>payments := map ?g (payments ?w0)\<rparr>"
  have p0: "payment_findUnique_referenceNumber r ?w0 = Some p"
    using p by (simp add: payment_findUnique_referenceNumber_def log_def)
  have upd: "payment_update_referenceNumber r ?f ?w0 = Some ?w1"
    by (rule payment_update_referenceNumber_found[OF p0])
  have p1: "payment_findUnique_referenceNumber r ?w1 = Some (?g p)"
    using payment_findUnique_referenceNumber_updated[of ?f r r ?w0] p0 by simp
  have bid: "p_bookingId (?g p) = p_bookingId p" by simp
  have b1: "switch_bookingStatus (st) = None
            \<or> (\<exists>b. booking_findUnique (p_bookingId (?g p)) ?w1 = Some b)"
    using b unfolding bid by (simp add: booking_findUnique_def log_def)
  note inner = PaymentStatusService_updateBookingStatus_found[OF p1 b1, unfolded bid]
  obtain res w2 where eq: "PaymentStatusService_updateBookingStatus r st ?w1 = (res, w2)"
    by (cases "PaymentStatusService_updateBookingStatus r st ?w1")
  have w1: "bookings ?w1 = bookings w" "payments ?w1 = map ?g (payments w)"
    "webhookEvents ?w1 = webhookEvents w" "sent ?w1 = sent w"
    "logs ?w1 = logs w @ [Log_UpdatingPayment r st]"
    by (simp_all add: log_def)
  note inner' = inner[unfolded eq fst_conv snd_conv w1]
  have out: "updatePaymentStatusFromAPI r st w = (Success, log (Log_UpdatedPayment r st) w2)"
    using upd eq inner'(1) by (simp add: updatePaymentStatusFromAPI_def Let_def)
  show "fst (updatePaymentStatusFromAPI r st w) = Success" by (simp add: out)
  show "bookings (snd (updatePaymentStatusFromAPI r st w)) =
           (case switch_bookingStatus st of
              None \<Rightarrow> bookings w
            | Some s \<Rightarrow> map (\<lambda>b. if b_id b = p_bookingId p then b\<lparr>b_status := s\<rparr> else b) (bookings w))"
    using inner'(2) by (simp add: out log_def)
  show "payments (snd (updatePaymentStatusFromAPI r st w)) = map ?g (payments w)"
    using inner'(3) by (simp add: out log_def)
  show "webhookEvents (snd (updatePaymentStatusFromAPI r st w)) = webhookEvents w"
    using inner'(4) by (simp add: out log_def)
  show "sent (snd (updatePaymentStatusFromAPI r st w)) =
           sent w @ (if st = ''SUCCEEDED''
                     then [SendBookingConfirmationEmail (p_bookingId p), SendGuestConfirmationEmail (p_bookingId p)]
                     else [])"
    using inner'(5) by (simp add: out log_def)
  show "logs (snd (updatePaymentStatusFromAPI r st w)) =
           logs w @ [Log_UpdatingPayment r st]
             @ (case switch_bookingStatus st of
                  None \<Rightarrow> []
                | Some s \<Rightarrow> [Log_UpdatedBooking (p_bookingId p) s])
             @ [Log_UpdatedPayment r st]"
    using inner'(6) by (simp add: out log_def)
qed

lemma getPaymentStatus_found:
  assumes p: "payment_findUnique_referenceNumber r w = Some p"
    and b: "switch_bookingStatus (pr_status resp) = None \<or> (\<exists>b. booking_findUnique (p_bookingId p) w = Some b)"
  shows "fst (getPaymentStatus r (FetchOk resp) w) = Inr resp"
    and "bookings (snd (getPaymentStatus r (FetchOk resp) w)) =
           (case switch_bookingStatus (pr_status resp) of
              None \<Rightarrow> bookings w
            | Some s \<Rightarrow> map (\<lambda>b. if b_id b = p_bookingId p then b\<lparr>b_status := s\<rparr> else b) (bookings w))"
    and "payments (snd (getPaymentStatus r (FetchOk resp) w)) =
           map (\<lambda>q. if p_referenceNumber q = r
                     then q\<lparr>p_status := mapPaymentStatus (pr_status resp),
                            p_paymentMethod := (if pr_customer resp then Some ''online'' else None)\<rparr>
                     else q) (payments w)"
    and "webhookEvents (snd (getPaymentStatus r (FetchOk resp) w)) = webhookEvents w"
    and "sent (snd (getPaymentStatus r (FetchOk resp) w)) =
           sent w @ (if pr_status resp = ''SUCCEEDED''
                     then [SendBookingConfirmationEmail (p_bookingId p)]
                     else [])"
    and "delays (snd (getPaymentStatus r (FetchOk resp) w)) = delays w"
    and "logs (snd (getPaymentStatus r (FetchOk resp) w)) =
           logs w @ (case switch_bookingStatus (pr_status resp) of
                       None \<Rightarrow> []
                     | Some s \<Rightarrow> Log_UpdatedBookingBasedOn (p_bookingId p) s (pr_status resp)
                                  # (if pr_status resp = ''SUCCEEDED''
                                     then [Err_FailedToSendGuestEmail] else []))"
proof -
  let ?f = "\<lambda>q. q\<lparr>p_status := mapPaymentStatus (pr_status resp),
                    p_paymentMethod := (if pr_customer resp then Some ''online'' else None)\<rparr>"
  let ?g = "\<lambda>q. if p_referenceNumber q = r then ?f q else q"
  let ?w1 = "w\<lparr>payments := map ?g (payments w)\<rparr>"
  have upd: "payment_update_referenceNumber r ?f w = Some ?w1"
    by (rule payment_update_referenceNumber_found[OF p])
  have p1: "payment_findUnique_referenceNumber r ?w1 = Some (?g p)"
    using payment_findUnique_referenceNumber_updated[of ?f r r w] p by simp
  have bid: "p_bookingId (?g p) = p_bookingId p" by simp
  have b1: "switch_bookingStatus (pr_status resp) = None
            \<or> (\<exists>b. booking_findUnique (p_bookingId (?g p)) ?w1 = Some b)"
    using b unfolding bid by (simp add: booking_findUnique_def log_def)
  note inner = PaymentService_updateBookingStatus_found[OF p1 b1, unfolded bid]
  obtain res w2 where eq: "PaymentService_updateBookingStatus r (pr_status resp) ?w1 = (res, w2)"
    by (cases "PaymentService_updateBookingStatus r (pr_status resp) ?w1")
  have w1: "bookings ?w1 = bookings w" "payments ?w1 = map ?g (payments w)"
    "webhookEvents ?w1 = webhookEvents w" "sent ?w1 = sent w" "delays ?w1 = delays w"
    "logs ?w1 = logs w"
    by simp_all
  note inner' = inner[unfolded eq fst_conv snd_conv w1]
  have out: "getPaymentStatus r (FetchOk resp) w = (Inr resp, w2)"
    using upd eq inner'(1) by (simp add: getPaymentStatus_def)
  show "fst (getPaymentStatus r (FetchOk resp) w) = Inr resp" by (simp add: out)
  show "bookings (snd (getPaymentStatus r (FetchOk resp) w)) =
           (case switch_bookingStatus (pr_status resp) of
              None \<Rightarrow> bookings w
            | Some s \<Rightarrow> map (\<lambda>b. if b_id b = p_bookingId p then b\<lparr>b_status := s\<rparr> else b) (bookings w))"
    using inner'(2) by (simp add: out)
  show "payments (snd (getPaymentStatus r (FetchOk resp) w)) = map ?g (payments w)"
    using inner'(3) by (simp add: out)
  show "webhookEvents (snd (getPaymentStatus r (FetchOk resp) w)) = webhookEvents w"
    using inner'(4) by (simp add: out)
  show "sent (snd (getPaymentStatus r (FetchOk resp) w)) =
           sent w @ (if pr_status resp = ''SUCCEEDED''
                     then [SendBookingConfirmationEmail (p_bookingId p)]
                     else [])"
    using inner'(5) by (simp add: out)
  show "delays (snd (getPaymentStatus r (FetchOk resp) w)) = delays w"
    using inner'(6) by (simp add: out)
  show "logs (snd (getPaymentStatus r (FetchOk resp) w)) =
           logs w @ (case switch_bookingStatus (pr_status resp) of
                       None \<Rightarrow> []
                     | Some s \<Rightarrow> Log_UpdatedBookingBasedOn (p_bookingId p) s (pr_status resp)
                                  # (if pr_status resp = ''SUCCEEDED''
                                     then [Err_FailedToSendGuestEmail] else []))"
    using inner'(7) by (simp add: out)
qed


lemma bookingStatus_find:
  "bookingStatus i w = map_option b_status (find (\<lambda>b. b_id b = i) (bookings w))"
  by (simp add: bookingStatus_def booking_findUnique_def)

lemma paymentStatus_find:
  "paymentStatus r w = map_option p_status (find (\<lambda>q. p_referenceNumber q = r) (payments w))"
  by (simp add: paymentStatus_def payment_findUnique_referenceNumber_def)

lemma bookingStatus_switched:
  assumes "booking_findUnique i w = Some b"
  shows "map_option b_status (find (\<lambda>b. b_id b = i)
           (case switch_bookingStatus st of
              None \<Rightarrow> bookings w
            | Some s \<Rightarrow> map (\<lambda>b. if b_id b = i then b\<lparr>b_status := s\<rparr> else b) (bookings w)))
         = Some (if st = ''SUCCEEDED'' then BK_CONFIRMED
                 else if st = ''FAILED'' \<or> st = ''CANCELLED'' then BK_CANCELLED
                 else b_status b)"
  using bookingStatus_set[OF assms] assms
  by (simp add: switch_bookingStatus_def booking_findUnique_def)

lemma paymentStatus_mapped:
  assumes "payment_findUnique_referenceNumber r w = Some p"
  shows "map_option p_status (find (\<lambda>q. p_referenceNumber q = r)
           (map (\<lambda>q. if p_referenceNumber q = r then q\<lparr>p_status := s\<rparr> else q) (payments w))) = Some s"
    and "map_option p_status (find (\<lambda>q. p_referenceNumber q = r)
           (map (\<lambda>q. if p_referenceNumber q = r then q\<lparr>p_status := s, p_paymentMethod := m\<rparr> else q)
              (payments w))) = Some s"
  using assms payment_found_key[OF assms]
  by (simp_all add: payment_findUnique_referenceNumber_def find_map_keep)

text \<open>
  C3, as the code has it.  Reconciliation does not look at the booking's status.  For
  every booking, terminal or not, whose payment is reconciled (by
  \<^verbatim>\<open>updatePaymentStatusFromAPI\<close> or by \<^verbatim>\<open>getPaymentStatus\<close>), the call succeeds and the
  booking is CONFIRMED after a reported SUCCEEDED, CANCELLED after a reported FAILED or
  CANCELLED, and keeps its status after any other report.  No error is raised for a
  terminal booking.
\<close>

theorem reconcile_sets_booking_from_report:
  assumes "payment_findUnique_referenceNumber r w = Some p"
    and "booking_findUnique (p_bookingId p) w = Some b"
  shows "fst (updatePaymentStatusFromAPI r st w) = Success
       \<and> bookingStatus (p_bookingId p) (snd (updatePaymentStatusFromAPI r st w))
           = Some (if st = ''SUCCEEDED'' then BK_CONFIRMED
                   else if st = ''FAILED'' \<or> st = ''CANCELLED'' then BK_CANCELLED
                   else b_status b)
       \<and> fst (getPaymentStatus r (FetchOk resp) w) = Inr resp
       \<and> bookingStatus (p_bookingId p) (snd (getPaymentStatus r (FetchOk resp) w))
           = Some (if pr_status resp = ''SUCCEEDED'' then BK_CONFIRMED
                   else if pr_status resp = ''FAILED'' \<or> pr_status resp = ''CANCELLED'' then BK_CANCELLED
                   else b_status b)"
proof -
  have bk: "switch_bookingStatus s = None \<or> (\<exists>b. booking_findUnique (p_bookingId p) w = Some b)" for s
    using assms(2) by auto
  show ?thesis
    unfolding bookingStatus_find
      updatePaymentStatusFromAPI_found(1,2)[OF assms(1) bk]
      getPaymentStatus_found(1,2)[OF assms(1) bk]
      bookingStatus_switched[OF assms(2)]
    by simp
qed

text \<open>C3, on the instance: a cancelled booking stays cancelled under a reported PENDING and
  is confirmed under a reported SUCCEEDED.\<close>

theorem reconcile_sets_booking_from_report_witness:
  "payment_findUnique_referenceNumber ''ref''
       (exWorld 100 [exBooking ''b1'' t0900 t1000 BK_CANCELLED] [exPayment PY_CANCELLED])
     = Some (exPayment PY_CANCELLED)
   \<and> booking_findUnique (p_bookingId (exPayment PY_CANCELLED))
       (exWorld 100 [exBooking ''b1'' t0900 t1000 BK_CANCELLED] [exPayment PY_CANCELLED])
     = Some (exBooking ''b1'' t0900 t1000 BK_CANCELLED)
   \<and> bookingStatus ''b1'' (snd (updatePaymentStatusFromAPI ''ref'' ''PENDING''
       (exWorld 100 [exBooking ''b1'' t0900 t1000 BK_CANCELLED] [exPayment PY_CANCELLED]))) = Some BK_CANCELLED
   \<and> bookingStatus ''b1'' (snd (updatePaymentStatusFromAPI ''ref'' ''SUCCEEDED''
       (exWorld 100 [exBooking ''b1'' t0900 t1000 BK_CANCELLED] [exPayment PY_CANCELLED]))) = Some BK_CONFIRMED"
proof -
  let ?w = "exWorld 100 [exBooking ''b1'' t0900 t1000 BK_CANCELLED] [exPayment PY_CANCELLED]"
  have p: "payment_findUnique_referenceNumber ''ref'' ?w = Some (exPayment PY_CANCELLED)"
    by (simp add: payment_findUnique_referenceNumber_def exWorld_def exPayment_def)
  have b: "booking_findUnique (p_bookingId (exPayment PY_CANCELLED)) ?w
             = Some (exBooking ''b1'' t0900 t1000 BK_CANCELLED)"
    by (simp add: booking_findUnique_def exWorld_def exPayment_def exBooking_def)
  have i: "p_bookingId (exPayment PY_CANCELLED) = ''b1''"
    and st: "b_status (exBooking ''b1'' t0900 t1000 BK_CANCELLED) = BK_CANCELLED"
    by (simp_all add: exPayment_def exBooking_def)
  show ?thesis
    using p b reconcile_sets_booking_from_report[OF p b, of "''PENDING''"]
      reconcile_sets_booking_from_report[OF p b, of "''SUCCEEDED''"]
    unfolding i st by simp
qed

text \<open>
  C3 as stated fails: booking \<open>b1\<close> is CANCELLED (with its payment); reconciling a
  reported SUCCEEDED succeeds, sets the booking to CONFIRMED and sends both mails.
\<close>

theorem reconcile_confirms_cancelled_booking:
  "terminal (exBooking ''b1'' t0900 t1000 BK_CANCELLED)
   \<and> bookingStatus ''b1'' (exWorld 100 [exBooking ''b1'' t0900 t1000 BK_CANCELLED] [exPayment PY_CANCELLED])
       = Some BK_CANCELLED
   \<and> updatePaymentStatusFromAPI ''ref'' ''SUCCEEDED''
       (exWorld 100 [exBooking ''b1'' t0900 t1000 BK_CANCELLED] [exPayment PY_CANCELLED])
     = (Success,
        (exWorld 100 [exBooking ''b1'' t0900 t1000 BK_CONFIRMED] [exPayment PY_SUCCEEDED])
          \<lparr>sent := [SendBookingConfirmationEmail ''b1'', SendGuestConfirmationEmail ''b1''],
           logs := [Log_UpdatingPayment ''ref'' ''SUCCEEDED'', Log_UpdatedBooking ''b1'' BK_CONFIRMED,
                    Log_UpdatedPayment ''ref'' ''SUCCEEDED'']\<rparr>)
   \<and> bookingStatus ''b1'' (snd (updatePaymentStatusFromAPI ''ref'' ''SUCCEEDED''
       (exWorld 100 [exBooking ''b1'' t0900 t1000 BK_CANCELLED] [exPayment PY_CANCELLED]))) = Some BK_CONFIRMED"
  by (simp add: terminal_def bookingStatus_def booking_findUnique_def exWorld_def exBooking_def exPayment_def
      updatePaymentStatusFromAPI_def PaymentStatusService_updateBookingStatus_def
      payment_update_referenceNumber_def payment_findUnique_referenceNumber_def booking_update_def
      switch_bookingStatus_def log_def sendBookingConfirmationEmail_def sendGuestConfirmationEmail_def Let_def)





text \<open>
  C8, as the code has it.  A reported status outside PENDING, SUCCEEDED, FAILED,
  CANCELLED is not an error, for a payment that exists: the call succeeds, the payment's
  status is set to PENDING, the bookings are untouched and no mail is sent.
  \<^verbatim>\<open>updatePaymentStatusFromAPI\<close> writes two log lines, one before the update and one
  after it, and both carry the reported status; \<^verbatim>\<open>getPaymentStatus\<close> writes no log
  line.
\<close>

theorem unrecognized_status_sets_payment_pending:
  assumes "\<not> recognized st" and "payment_findUnique_referenceNumber r w = Some p"
    and "pr_status resp = st"
  shows "fst (updatePaymentStatusFromAPI r st w) = Success
       \<and> paymentStatus r (snd (updatePaymentStatusFromAPI r st w)) = Some PY_PENDING
       \<and> bookings (snd (updatePaymentStatusFromAPI r st w)) = bookings w
       \<and> sent (snd (updatePaymentStatusFromAPI r st w)) = sent w
       \<and> logs (snd (updatePaymentStatusFromAPI r st w))
           = logs w @ [Log_UpdatingPayment r st, Log_UpdatedPayment r st]
       \<and> fst (getPaymentStatus r (FetchOk resp) w) = Inr resp
       \<and> paymentStatus r (snd (getPaymentStatus r (FetchOk resp) w)) = Some PY_PENDING
       \<and> bookings (snd (getPaymentStatus r (FetchOk resp) w)) = bookings w
       \<and> sent (snd (getPaymentStatus r (FetchOk resp) w)) = sent w
       \<and> logs (snd (getPaymentStatus r (FetchOk resp) w)) = logs w"
proof -
  have st: "st \<noteq> ''PENDING''" "st \<noteq> ''SUCCEEDED''" "st \<noteq> ''FAILED''" "st \<noteq> ''CANCELLED''"
    using assms(1) by (auto simp: recognized_def)
  have sw: "switch_bookingStatus st = None"
    using st by (simp add: switch_bookingStatus_def)
  have bk: "switch_bookingStatus st = None \<or> (\<exists>b. booking_findUnique (p_bookingId p) w = Some b)"
    using sw by simp
  have bk': "switch_bookingStatus (pr_status resp) = None
             \<or> (\<exists>b. booking_findUnique (p_bookingId p) w = Some b)"
    using sw assms(3) by simp
  have m: "mapPaymentStatus st = PY_PENDING"
    using st by (simp add: mapPaymentStatus_def)
  have tern: "(if st = ''SUCCEEDED'' then PY_SUCCEEDED else if st = ''FAILED'' then PY_FAILED
               else if st = ''CANCELLED'' then PY_CANCELLED else PY_PENDING) = PY_PENDING"
    using st by simp
  have p1: "paymentStatus r (snd (updatePaymentStatusFromAPI r st w)) = Some PY_PENDING"
    unfolding paymentStatus_find updatePaymentStatusFromAPI_found(3)[OF assms(2) bk] tern
    by (rule paymentStatus_mapped(1)[OF assms(2)])
  have p2: "paymentStatus r (snd (getPaymentStatus r (FetchOk resp) w)) = Some PY_PENDING"
    unfolding paymentStatus_find getPaymentStatus_found(3)[OF assms(2) bk'] assms(3) m
    by (rule paymentStatus_mapped(2)[OF assms(2)])
  have rest: "fst (updatePaymentStatusFromAPI r st w) = Success"
    "bookings (snd (updatePaymentStatusFromAPI r st w)) = bookings w"
    "sent (snd (updatePaymentStatusFromAPI r st w)) = sent w"
    "logs (snd (updatePaymentStatusFromAPI r st w))
       = logs w @ [Log_UpdatingPayment r st, Log_UpdatedPayment r st]"
    unfolding updatePaymentStatusFromAPI_found[OF assms(2) bk] sw using st by simp_all
  have rest': "fst (getPaymentStatus r (FetchOk resp) w) = Inr resp"
    "bookings (snd (getPaymentStatus r (FetchOk resp) w)) = bookings w"
    "sent (snd (getPaymentStatus r (FetchOk resp) w)) = sent w"
    "logs (snd (getPaymentStatus r (FetchOk resp) w)) = logs w"
    unfolding getPaymentStatus_found[OF assms(2) bk'] assms(3) sw using st by simp_all
  show ?thesis using p1 p2 rest rest' by blast
qed

text \<open>C8, on the instance: a reported EXPIRED on a pending payment.\<close>

theorem unrecognized_status_sets_payment_pending_witness:
  "\<not> recognized ''EXPIRED''
   \<and> payment_findUnique_referenceNumber ''ref''
       (exWorld 100 [exBooking ''b1'' t0900 t1000 BK_PENDING] [exPayment PY_PENDING])
     = Some (exPayment PY_PENDING)
   \<and> fst (updatePaymentStatusFromAPI ''ref'' ''EXPIRED''
       (exWorld 100 [exBooking ''b1'' t0900 t1000 BK_PENDING] [exPayment PY_PENDING])) = Success
   \<and> paymentStatus ''ref'' (snd (updatePaymentStatusFromAPI ''ref'' ''EXPIRED''
       (exWorld 100 [exBooking ''b1'' t0900 t1000 BK_PENDING] [exPayment PY_PENDING]))) = Some PY_PENDING
   \<and> bookings (snd (updatePaymentStatusFromAPI ''ref'' ''EXPIRED''
       (exWorld 100 [exBooking ''b1'' t0900 t1000 BK_PENDING] [exPayment PY_PENDING])))
     = [exBooking ''b1'' t0900 t1000 BK_PENDING]
   \<and> logs (snd (updatePaymentStatusFromAPI ''ref'' ''EXPIRED''
       (exWorld 100 [exBooking ''b1'' t0900 t1000 BK_PENDING] [exPayment PY_PENDING])))
     = [Log_UpdatingPayment ''ref'' ''EXPIRED'', Log_UpdatedPayment ''ref'' ''EXPIRED'']
   \<and> paymentStatus ''ref'' (snd (getPaymentStatus ''ref''
       (FetchOk \<lparr>pr_status = ''EXPIRED'', pr_customer = False\<rparr>)
       (exWorld 100 [exBooking ''b1'' t0900 t1000 BK_PENDING] [exPayment PY_PENDING]))) = Some PY_PENDING
   \<and> logs (snd (getPaymentStatus ''ref'' (FetchOk \<lparr>pr_status = ''EXPIRED'', pr_customer = False\<rparr>)
       (exWorld 100 [exBooking ''b1'' t0900 t1000 BK_PENDING] [exPayment PY_PENDING]))) = []"
proof -
  let ?w = "exWorld 100 [exBooking ''b1'' t0900 t1000 BK_PENDING] [exPayment PY_PENDING]"
  have n: "\<not> recognized ''EXPIRED''" by (simp add: recognized_def)
  have p: "payment_findUnique_referenceNumber ''ref'' ?w = Some (exPayment PY_PENDING)"
    by (simp add: payment_findUnique_referenceNumber_def exWorld_def exPayment_def)
  have r: "pr_status \<lparr>pr_status = ''EXPIRED'', pr_customer = False\<rparr> = ''EXPIRED''" by simp
  have i: "bookings ?w = [exBooking ''b1'' t0900 t1000 BK_PENDING]" "logs ?w = []"
    by (simp_all add: exWorld_def)
  show ?thesis
    using n p unrecognized_status_sets_payment_pending[OF n p r]
    unfolding i by simp
qed

text \<open>
  C8 as stated fails: an unrecognized status is mapped to PENDING and written.  With the
  payment SUCCEEDED, a reported EXPIRED sets its status back to PENDING.
\<close>

theorem unrecognized_status_overwrites_succeeded:
  "\<not> recognized ''EXPIRED''
   \<and> paymentStatus ''ref'' (exWorld 100 [exBooking ''b1'' t0900 t1000 BK_CONFIRMED] [exPayment PY_SUCCEEDED])
       = Some PY_SUCCEEDED
   \<and> updatePaymentStatusFromAPI ''ref'' ''EXPIRED''
       (exWorld 100 [exBooking ''b1'' t0900 t1000 BK_CONFIRMED] [exPayment PY_SUCCEEDED])
     = (Success,
        (exWorld 100 [exBooking ''b1'' t0900 t1000 BK_CONFIRMED] [exPayment PY_PENDING])
          \<lparr>logs := [Log_UpdatingPayment ''ref'' ''EXPIRED'', Log_UpdatedPayment ''ref'' ''EXPIRED'']\<rparr>)
   \<and> paymentStatus ''ref'' (snd (updatePaymentStatusFromAPI ''ref'' ''EXPIRED''
       (exWorld 100 [exBooking ''b1'' t0900 t1000 BK_CONFIRMED] [exPayment PY_SUCCEEDED]))) = Some PY_PENDING"
  by (simp add: recognized_def paymentStatus_def exWorld_def exBooking_def exPayment_def
      updatePaymentStatusFromAPI_def PaymentStatusService_updateBookingStatus_def
      payment_update_referenceNumber_def payment_findUnique_referenceNumber_def
      switch_bookingStatus_def log_def Let_def)

section \<open>What every operation keeps\<close>

lemma ledger_status_update:
  "map (\<lambda>b. (b_id b, b_totalPrice b)) (map (\<lambda>b. if b_id b = i then b\<lparr>b_status := s\<rparr> else b) bs)
   = map (\<lambda>b. (b_id b, b_totalPrice b)) bs"
  by (induction bs) simp_all

lemma durable_effects [simp]:
  "durable (log l w) = durable w"
  "durable (delay ms w) = durable w"
  "durable (sendBookingConfirmationEmail p w) = durable w"
  "durable (sendGuestConfirmationEmail p w) = durable w"
  "durable (PaymentService_sendGuestConfirmationEmail p w) = durable w"
  by (simp_all add: durable_def price_ledger_def log_def delay_def
      sendBookingConfirmationEmail_def sendGuestConfirmationEmail_def
      PaymentService_sendGuestConfirmationEmail_def)

lemma booking_update_durable:
  "booking_update i st w = Some w' \<Longrightarrow> durable w' = durable w"
  by (auto simp: booking_update_def durable_def price_ledger_def ledger_status_update split: if_splits)

lemma payment_update_durable:
  "payment_update_id i st w = Some w' \<Longrightarrow> durable w' = durable w"
  "payment_update_bookingId i st w = Some w' \<Longrightarrow> durable w' = durable w"
  "payment_update_referenceNumber r f w = Some w' \<Longrightarrow> durable w' = durable w"
  by (auto simp: payment_update_id_def payment_update_bookingId_def payment_update_referenceNumber_def
      durable_def price_ledger_def split: if_splits)

lemma PaymentService_updateBookingStatus_durable:
  "PaymentService_updateBookingStatus r st w = (res, w') \<Longrightarrow> durable w' = durable w"
  by (auto simp: PaymentService_updateBookingStatus_def Let_def
      split: option.splits if_splits dest: booking_update_durable)

lemma PaymentStatusService_updateBookingStatus_durable:
  "PaymentStatusService_updateBookingStatus r st w = (res, w') \<Longrightarrow> durable w' = durable w"
  by (auto simp: PaymentStatusService_updateBookingStatus_def Let_def
      split: option.splits if_splits dest: booking_update_durable)

lemma getPaymentStatus_durable:
  "getPaymentStatus r response w = (res, w') \<Longrightarrow> durable w' = durable w"
  by (auto simp: getPaymentStatus_def
      split: gateway_response.splits option.splits prod.splits sum.splits
      dest!: payment_update_durable PaymentService_updateBookingStatus_durable)

lemma updatePaymentStatusFromAPI_durable:
  "updatePaymentStatusFromAPI r st w = (res, w') \<Longrightarrow> durable w' = durable w"
  by (auto simp: updatePaymentStatusFromAPI_def Let_def
      split: option.splits prod.splits sum.splits
      dest!: payment_update_durable PaymentStatusService_updateBookingStatus_durable)


lemma poll_loop_durable:
  "poll_loop r m g a w = (res, w') \<Longrightarrow> durable w' = durable w"
proof (induction r m g a w rule: poll_loop.induct)
  case (1 r m g a w)
  show ?case
  proof (cases "a < m")
    case False
    with "1.prems" show ?thesis by (auto simp: poll_loop.simps[of r m g a w])
  next
    case True
    obtain x w1 where gp: "getPaymentStatus r (g a) w = (x, w1)"
      by (cases "getPaymentStatus r (g a) w")
    have d1: "durable w1 = durable w" by (rule getPaymentStatus_durable[OF gp])
    show ?thesis
    proof (cases x)
      case (Inl e)
      from "1.prems" True gp Inl
      have "poll_loop r m g (a + 1)
              (if a < m - 1 then delay 5000 (log (Err_CheckingPaymentStatus r) w1)
               else log (Err_CheckingPaymentStatus r) w1) = (res, w')"
        by (simp add: poll_loop.simps[of r m g a w])
      from "1.IH"(1)[OF True gp[symmetric] Inl this] d1 show ?thesis by (simp split: if_splits)
    next
      case (Inr payment)
      show ?thesis
      proof (cases "pr_status payment = ''SUCCEEDED'' \<or> pr_status payment = ''FAILED''
                    \<or> pr_status payment = ''CANCELLED''")
        case fin: True
        with "1.prems" True gp Inr d1 show ?thesis
          by (auto simp: poll_loop.simps[of r m g a w])
      next
        case nf: False
        from "1.prems" True gp Inr nf
        have "poll_loop r m g (a + 1)
                (delay (min (2 ^ a * 1000) 30000)
                   (log (Log_StillPending r (min (2 ^ a * 1000) 30000)) w1)) = (res, w')"
          by (simp add: poll_loop.simps[of r m g a w])
        from "1.IH"(2)[OF True gp[symmetric] Inr nf this] d1 show ?thesis by simp
      qed
    qed
  qed
qed


lemma cancel_durable:
  "cancel i userId w = (res, w') \<Longrightarrow> durable w' = durable w"
  by (auto simp: cancel_def cancel_payment_part_def
      split: sum.splits prod.splits option.splits if_splits
      dest!: payment_update_durable booking_update_durable)

lemma devCancel_durable:
  "devCancel production i userId w = (res, w') \<Longrightarrow> durable w' = durable w"
  by (auto simp: devCancel_def
      split: sum.splits prod.splits option.splits if_splits
      dest!: payment_update_durable booking_update_durable)

lemma handleWebhook_apply_durable:
  "handleWebhook_apply rejects event w = (res, w') \<Longrightarrow> durable w' = durable w"
  by (auto simp: handleWebhook_apply_def
      split: option.splits prod.splits if_splits
      dest!: updatePaymentStatusFromAPI_durable)

lemma handleWebhook_event_ledger:
  assumes "handleWebhook_event rejects event w = (res, w')"
  shows "price_ledger w' = price_ledger w
       \<and> (webhookEvents w' = webhookEvents w \<or> webhookEvents w' = webhookEvents w @ [eventIdOf event])"
  using assms
  by (auto simp: handleWebhook_event_def Let_def durable_def log_def price_ledger_def
      split: if_splits dest!: handleWebhook_apply_durable)

lemma handleWebhook_ledger:
  assumes "handleWebhook d w = (res, w')"
  shows "price_ledger w' = price_ledger w"
    and "set (webhookEvents w) \<subseteq> set (webhookEvents w')"
proof -
  obtain x w1 where t: "handleWebhook_try d w = (x, w1)"
    by (cases "handleWebhook_try d w")
  have "price_ledger w1 = price_ledger w \<and> set (webhookEvents w) \<subseteq> set (webhookEvents w1)"
    using t
    by (auto simp: handleWebhook_try_def log_def price_ledger_def
        split: if_splits option.splits sum.splits dest!: handleWebhook_event_ledger)
  moreover have "price_ledger w' = price_ledger w1 \<and> webhookEvents w' = webhookEvents w1"
    using assms t by (auto simp: handleWebhook_def log_def price_ledger_def split: sum.splits)
  ultimately show "price_ledger w' = price_ledger w" and "set (webhookEvents w) \<subseteq> set (webhookEvents w')"
    by simp_all
qed

lemma create_ledger:
  assumes "create w now dto userId newId = (res, w')"
  shows "webhookEvents w' = webhookEvents w \<and> prefix (price_ledger w) (price_ledger w')"
  using assms
  by (auto simp: create_def create_insert_def price_ledger_def split: sum.splits)

lemma grows_refl: "grows w w"
  by (simp add: grows_def)

lemma grows_trans: "grows w w' \<Longrightarrow> grows w' w'' \<Longrightarrow> grows w w''"
  by (auto simp: grows_def)

lemma durable_grows: "durable w' = durable w \<Longrightarrow> grows w w'"
  by (simp add: grows_def durable_def)

lemma grows_exec: "grows w (exec op w)"
proof (cases op)
  case (OpCreate now dto userId newId)
  obtain res w' where c: "create w now dto userId newId = (res, w')"
    by (cases "create w now dto userId newId")
  from create_ledger[OF c] show ?thesis
    unfolding OpCreate by (auto simp: c grows_def)
next
  case (OpCancel i userId)
  then show ?thesis
    using cancel_durable[of i userId w] by (cases "cancel i userId w") (simp add: durable_grows)
next
  case (OpDevCancel production i userId)
  then show ?thesis
    using devCancel_durable[of production i userId w]
    by (cases "devCancel production i userId w") (simp add: durable_grows)
next
  case (OpGetPaymentStatus r response)
  then show ?thesis
    using getPaymentStatus_durable[of r response w]
    by (cases "getPaymentStatus r response w") (simp add: durable_grows)
next
  case (OpPoll r maxAttempts gateway)
  then show ?thesis
    using poll_loop_durable[of r "case maxAttempts of None \<Rightarrow> 20 | Some m \<Rightarrow> m" gateway 0 w]
    by (cases "poll_loop r (case maxAttempts of None \<Rightarrow> 20 | Some m \<Rightarrow> m) gateway 0 w")
       (simp add: durable_grows pollPaymentStatus_def)
next
  case (OpUpdateFromAPI r st)
  then show ?thesis
    using updatePaymentStatusFromAPI_durable[of r st w]
    by (cases "updatePaymentStatusFromAPI r st w") (simp add: durable_grows)
next
  case (OpWebhook d)
  obtain res w' where h: "handleWebhook d w = (res, w')"
    by (cases "handleWebhook d w")
  from handleWebhook_ledger[OF h] show ?thesis
    unfolding OpWebhook by (simp add: h grows_def)
qed

lemma grows_run: "grows w (run ops w)"
proof (induction ops arbitrary: w)
  case Nil
  show ?case by (simp add: run_def grows_refl)
next
  case (Cons op ops)
  have "run (op # ops) w = run ops (exec op w)" by (simp add: run_def)
  with grows_trans[OF grows_exec Cons.IH] show ?case by simp
qed


section \<open>The price of a booking\<close>

text \<open>
  \<open>round64\<close> rounds to a nearest value: \<open>exponent\<close> is the binary exponent, \<open>rne\<close>
  moves by at most a half, and a finite result lies within half the spacing of the
  numbers of its exponent.
\<close>

lemma ilog2_bounds: "1 \<le> n \<Longrightarrow> 0 \<le> ilog2 n \<and> 2 ^ nat (ilog2 n) \<le> n \<and> n < 2 * 2 ^ nat (ilog2 n)"
proof (induction n rule: ilog2.induct)
  case (1 n)
  show ?case
  proof (cases "n < 2")
    case True
    with 1(2) have "n = 1" by simp
    then show ?thesis by (simp add: ilog2.simps)
  next
    case False
    then have h: "1 \<le> n div 2" by simp
    from 1(1)[OF False h] have ih: "0 \<le> ilog2 (n div 2)" "2 ^ nat (ilog2 (n div 2)) \<le> n div 2"
      "n div 2 < 2 * 2 ^ nat (ilog2 (n div 2))" by simp_all
    have e: "ilog2 n = 1 + ilog2 (n div 2)" using False by (subst ilog2.simps) simp
    have n: "nat (1 + ilog2 (n div 2)) = Suc (nat (ilog2 (n div 2)))" using ih(1) by simp
    define m where "m = (2::int) ^ nat (ilog2 (n div 2))"
    have "m \<le> n div 2" "n div 2 < 2 * m" using ih by (simp_all add: m_def)
    then have "2 * m \<le> n \<and> n < 2 * (2 * m)" by linarith
    then show ?thesis unfolding e n using ih(1) by (simp add: m_def)
  qed
qed

lemma floor_pow2_bounds:
  fixes y :: real
  assumes "2 ^ k \<le> \<lfloor>y\<rfloor>" and "\<lfloor>y\<rfloor> < 2 * 2 ^ k"
  shows "2 ^ k \<le> y" and "y < 2 * 2 ^ k"
proof -
  have "of_int (2 ^ k) \<le> y" using assms(1) by (simp only: le_floor_iff[symmetric])
  then show "2 ^ k \<le> y" by simp
  have "y < of_int (2 * 2 ^ k)" using assms(2) by (simp only: floor_less_iff[symmetric])
  then show "y < 2 * 2 ^ k" by simp
qed

lemma exponent_bounds:
  assumes "0 < a"
  shows "scale2 (exponent a) 1 \<le> a \<and> a < scale2 (exponent a + 1) 1"
proof (cases "1 \<le> a")
  case True
  then have f: "1 \<le> \<lfloor>a\<rfloor>" by simp
  define k where "k = nat (ilog2 \<lfloor>a\<rfloor>)"
  from ilog2_bounds[OF f] have k: "ilog2 \<lfloor>a\<rfloor> = int k" "2 ^ k \<le> \<lfloor>a\<rfloor>" "\<lfloor>a\<rfloor> < 2 * 2 ^ k"
    by (simp_all add: k_def)
  from floor_pow2_bounds[OF k(2,3)] show ?thesis
    using True by (simp add: exponent_def k(1) scale2_def nat_add_distrib)
next
  case False
  note small = False
  define y where "y = 1 / a"
  have y: "1 < y" "0 < y" "a = 1 / y" using False assms by (simp_all add: y_def)
  then have f: "1 \<le> \<lfloor>y\<rfloor>" by simp
  define j where "j = nat (ilog2 \<lfloor>y\<rfloor>)"
  from ilog2_bounds[OF f] have j: "ilog2 \<lfloor>y\<rfloor> = int j" "2 ^ j \<le> \<lfloor>y\<rfloor>" "\<lfloor>y\<rfloor> < 2 * 2 ^ j"
    by (simp_all add: j_def)
  note b = floor_pow2_bounds[OF j(2,3)]
  have up: "a \<le> 1 / 2 ^ j" unfolding y(3) using b(1) y(2) by (simp add: field_simps)
  have lo: "1 / (2 * 2 ^ j) < a" unfolding y(3) using b(2) y(2) by (simp add: field_simps)
  have ex: "exponent a = (if a * 2 ^ j = 1 then - int j else - int j - 1)"
    using False by (simp add: exponent_def Let_def y_def[symmetric] j(1) scale2_def)
  show ?thesis
  proof (cases "a * 2 ^ j = 1")
    case True
    then have a: "a = 1 / 2 ^ j" by (simp add: field_simps)
    have "j \<noteq> 0" using True False by (cases j) auto
    then obtain i where i: "j = Suc i" by (cases j) auto
    have "nat (int i + 1) = Suc i" by simp
    then show ?thesis unfolding ex using True a small by (simp add: scale2_def i field_simps)
  next
    case False
    then have "a \<noteq> 1 / 2 ^ j" by (auto simp: field_simps)
    with up have "a < 1 / 2 ^ j" by simp
    then show ?thesis unfolding ex using False lo small by (simp add: scale2_def nat_add_distrib)
  qed
qed

lemma rne_near: "\<bar>of_int (rne y) - y\<bar> \<le> 1 / 2"
  unfolding rne_def Let_def by (auto simp: abs_le_iff)

lemma scale2_mult: "scale2 k x = x * scale2 k 1"
  by (simp add: scale2_def)

lemma scale2_one_pos: "0 < scale2 k 1"
  by (simp add: scale2_def)

lemma scale2_neg: "scale2 (- k) 1 = 1 / scale2 k 1"
  by (cases "k = 0") (auto simp: scale2_def)

lemma scale2_pred: "scale2 (k - 1) 1 = scale2 k 1 / 2"
proof (cases "1 \<le> k")
  case True
  then have "nat k = Suc (nat (k - 1))" by simp
  then show ?thesis using True by (simp add: scale2_def)
next
  case False
  then have "nat (- (k - 1)) = Suc (nat (- k))" by simp
  then show ?thesis using False by (simp add: scale2_def)
qed

lemma round64_near:
  assumes "round64 x = Finite v"
  shows "\<bar>v - x\<bar> \<le> scale2 (max (exponent \<bar>x\<bar>) (- 1022) - 53) 1"
proof (cases "x = 0")
  case True
  with assms show ?thesis using scale2_one_pos[of "max (exponent \<bar>x\<bar>) (- 1022) - 53"]
    by (simp add: round64_def)
next
  case False
  define e where "e = max (exponent \<bar>x\<bar>) (- 1022)"
  define s where "s = scale2 (e - 52) 1"
  define n where "n = rne (scale2 (52 - e) \<bar>x\<bar>)"
  have s: "0 < s" by (simp add: s_def scale2_one_pos)
  have up: "scale2 (52 - e) \<bar>x\<bar> = \<bar>x\<bar> / s"
    using scale2_neg[of "e - 52"] by (subst scale2_mult) (simp add: s_def)
  have down: "scale2 (e - 52) (of_int n) = of_int n * s"
    by (subst scale2_mult) (simp add: s_def)
  have half: "scale2 (e - 53) 1 = s / 2"
    using scale2_pred[of "e - 52"] by (simp add: s_def)
  from assms False
  have "v = (if 0 < x then scale2 (e - 52) (of_int n) else - scale2 (e - 52) (of_int n))"
    unfolding round64_def Let_def e_def n_def by (simp split: if_splits)
  then have v: "v = (if 0 < x then of_int n * s else - (of_int n * s))"
    unfolding down .
  have "\<bar>of_int n - \<bar>x\<bar> / s\<bar> \<le> 1 / 2"
    using rne_near[of "\<bar>x\<bar> / s"] by (simp add: n_def up)
  then have "\<bar>of_int n - \<bar>x\<bar> / s\<bar> * s \<le> 1 / 2 * s"
    using s by (simp only: mult_le_cancel_right_pos)
  moreover have "\<bar>of_int n - \<bar>x\<bar> / s\<bar> * s = \<bar>of_int n * s - \<bar>x\<bar>\<bar>"
    using s by (simp add: abs_mult[symmetric] field_simps del: abs_mult)
  ultimately have bound: "\<bar>of_int n * s - \<bar>x\<bar>\<bar> \<le> s / 2" by simp
  have "\<bar>v - x\<bar> \<le> s / 2"
  proof (cases "0 < x")
    case True
    then show ?thesis using bound by (simp add: v)
  next
    case neg: False
    with False have x: "x < 0" by simp
    then have a: "\<bar>x\<bar> = - x" by simp
    have "v - x = - (of_int n * s - \<bar>x\<bar>)" unfolding a using x by (simp add: v)
    then have "\<bar>v - x\<bar> = \<bar>of_int n * s - \<bar>x\<bar>\<bar>" by (simp only: abs_minus_cancel)
    then show ?thesis using bound by simp
  qed
  then show ?thesis unfolding e_def[symmetric] half .
qed

text \<open>
  Some values of \<open>round64\<close>: one tenth; \<open>2^53 + 1\<close>, a tie that goes to the even
  significand; and the two amounts, 0.33 and 0.34, of the example below.
\<close>

lemma round64_tenth: "round64 (1 / 10) = Finite (3602879701896397 / 36028797018963968)"
  by code_simp

lemma round64_tie: "round64 9007199254740993 = Finite 9007199254740992"
  by code_simp

lemma round64_33: "round64 (33 / 100) = Finite (5944751508129055 / 18014398509481984)"
  by code_simp

lemma round64_34: "round64 (34 / 100) = Finite (6124895493223875 / 18014398509481984)"
  by code_simp

text \<open>
  The rounding of the operations shows in the price.  One minute at 34.50 per hour is
  0.575 in exact arithmetic, which \<^verbatim>\<open>Math.round\<close> would take up to 58 hundredths; the
  product the code computes lies just below 57.5, and the price is 0.57.
\<close>

lemma price_one_minute_at_34_50:
  "computeTotalPrice 0 60000 (Finite (69 / 2)) = round64 (57 / 100)"
  by code_simp

text \<open>Likewise 65 minutes at 13.50 per hour, 14.625 in exact arithmetic, cost 14.62.\<close>

lemma price_65_minutes_at_13_50:
  "computeTotalPrice 0 3900000 (Finite (27 / 2)) = round64 (1462 / 100)"
  by code_simp

text \<open>One minute at 20 per hour costs 0.33.\<close>

lemma price_one_minute_at_20:
  "computeTotalPrice 32400000 32460000 (Finite 20) = round64 (33 / 100)"
  by code_simp

text \<open>
  C6, as the code has it.  The total price of a created booking is what JavaScript
  computes for \<^verbatim>\<open>Math.round(hours * pricePerHour * 100) / 100\<close> with
  \<^verbatim>\<open>hours = (end - start) / 3600000\<close>: each operation gives the binary64 value nearest to
  its exact result, and \<^verbatim>\<open>Math.round\<close> takes the computed product to the nearest integer,
  a half going up.  The price is computed in \<^verbatim>\<open>create\<close> and no later operation changes
  it: after any history of operations the ledger still starts with the same identifiers
  and prices.  A booking 09:00--10:00 at 100 per hour costs 100.
\<close>

theorem totalPrice_rounded_and_kept:
  assumes "create w now dto userId newId = (Inr b, w')"
    and "parkingSpot_findUnique (dto_parkingSpotId dto) w = Some spot"
  shows "b_totalPrice b
           = num_over
               (Math_round
                  (num_times
                     (num_times
                        (num_over (round64 (of_int (dto_endTime dto) - of_int (dto_startTime dto))) 3600000)
                        (ps_pricePerHour spot))
                     (Finite 100)))
               100
       \<and> price_ledger w' = price_ledger w @ [(newId, b_totalPrice b)]
       \<and> prefix (price_ledger w @ [(newId, b_totalPrice b)]) (price_ledger (run ops w'))
       \<and> computeTotalPrice t0900 t1000 (Finite 100) = Finite 100"
proof -
  from assms(1) have chk: "create_check w now dto userId newId = Inr b" and w': "w' = create_insert b w"
    by (auto simp: create_def split: sum.splits)
  from create_check_Inr[OF chk] assms(2)
  have price: "b_totalPrice b = computeTotalPrice (dto_startTime dto) (dto_endTime dto) (ps_pricePerHour spot)"
    and bid: "b_id b = newId"
    by auto
  have led: "price_ledger w' = price_ledger w @ [(newId, b_totalPrice b)]"
    by (simp add: w' create_insert_def price_ledger_def bid)
  have kept: "prefix (price_ledger w') (price_ledger (run ops w'))"
    using grows_run[of w' ops] by (simp add: grows_def)
  have ex: "computeTotalPrice t0900 t1000 (Finite 100) = Finite 100"
    by (simp add: t0900_def t1000_def price_0900_1000)
  show ?thesis
    using price led kept ex by (simp add: computeTotalPrice_def)
qed

text \<open>C6, on the instance: the booking 09:00--10:00 at 100 per hour, then a cancel and a
  reconciliation.\<close>

theorem totalPrice_rounded_and_kept_witness:
  "create (exWorld 100 [] []) 0 (exDto t0900 t1000) ''guest'' ''b1''
     = (Inr (exBooking ''b1'' t0900 t1000 BK_PENDING), exWorld 100 [exBooking ''b1'' t0900 t1000 BK_PENDING] [])
   \<and> parkingSpot_findUnique (dto_parkingSpotId (exDto t0900 t1000)) (exWorld 100 [] []) = Some (exSpot 100)
   \<and> b_totalPrice (exBooking ''b1'' t0900 t1000 BK_PENDING) = Finite 100
   \<and> prefix [(''b1'', Finite 100)]
        (price_ledger (run [OpCancel ''b1'' ''guest'', OpUpdateFromAPI ''ref'' ''SUCCEEDED'']
           (exWorld 100 [exBooking ''b1'' t0900 t1000 BK_PENDING] [])))"
proof -
  have c: "create (exWorld 100 [] []) 0 (exDto t0900 t1000) ''guest'' ''b1''
     = (Inr (exBooking ''b1'' t0900 t1000 BK_PENDING), exWorld 100 [exBooking ''b1'' t0900 t1000 BK_PENDING] [])"
    by (simp add: ex_defs create_def create_check_def create_insert_def parkingSpot_findUnique_def
        price_0900_1000)
  have s: "parkingSpot_findUnique (dto_parkingSpotId (exDto t0900 t1000)) (exWorld 100 [] []) = Some (exSpot 100)"
    by (simp add: ex_defs parkingSpot_findUnique_def)
  have l: "price_ledger (exWorld 100 [] []) = []"
    "b_totalPrice (exBooking ''b1'' t0900 t1000 BK_PENDING) = Finite 100"
    by (simp_all add: price_ledger_def exWorld_def exBooking_def)
  show ?thesis
    using c s totalPrice_rounded_and_kept[OF c s,
        of "[OpCancel ''b1'' ''guest'', OpUpdateFromAPI ''ref'' ''SUCCEEDED'']"]
    unfolding l by simp
qed

text \<open>
  C6 as stated fails: the code rounds to the nearest cent, not up.  One minute at 20 per
  hour is a third of a peso; the stored price is the binary64 value of 0.33, which is
  not the binary64 value of 0.34, the amount \<open>ceil_to_cents\<close> gives.
\<close>

theorem totalPrice_is_not_rounded_up:
  "map_sum id b_totalPrice (fst (create (exWorld 20 [] []) 0 (exDto t0900 t0901) ''guest'' ''b1''))
     = Inr (Finite (5944751508129055 / 18014398509481984))
   \<and> round64 (33 / 100) = Finite (5944751508129055 / 18014398509481984)
   \<and> ceil_to_cents (hours t0900 t0901 * 20) = 34 / 100
   \<and> round64 (34 / 100) = Finite (6124895493223875 / 18014398509481984)"
proof -
  have a: "map_sum id b_totalPrice (fst (create (exWorld 20 [] []) 0 (exDto t0900 t0901) ''guest'' ''b1''))
          = Inr (Finite (5944751508129055 / 18014398509481984))"
    by (simp add: ex_defs create_def create_check_def parkingSpot_findUnique_def create_insert_def
        price_one_minute_at_20 round64_33)
  have b: "ceil_to_cents (hours t0900 t0901 * 20) = 34 / 100"
    by (simp add: ex_defs ceil_to_cents_def hours_def)
  show ?thesis
    using a b round64_33 round64_34 by blast
qed

section \<open>Webhook deliveries\<close>

lemma eventIdOf_nonempty: "eventIdOf ev \<noteq> []"
  by (simp add: eventIdOf_def split: option.splits)

lemma handleWebhook_accepted:
  assumes "\<not> signatureRejected d" and "wd_body d = Some ev"
  shows "\<exists>w0. handleWebhook_try d w = handleWebhook_event (wd_lookupRejects d) ev w0
           \<and> bookings w0 = bookings w \<and> payments w0 = payments w \<and> webhookEvents w0 = webhookEvents w
           \<and> sent w0 = sent w
           \<and> filter is_booking_update (logs w0) = filter is_booking_update (logs w)"
proof -
  consider (a) "wd_secretConfigured d \<and> wd_signature d \<noteq> [] \<and> wd_signature d \<noteq> ''test''"
    | (b) "\<not> wd_secretConfigured d"
    | (c) "wd_secretConfigured d" "wd_signature d = ''test''"
    | (d) "wd_secretConfigured d" "wd_signature d = []"
    by blast
  then show ?thesis
  proof cases
    case a
    with assms have "handleWebhook_try d w = handleWebhook_event (wd_lookupRejects d) ev w"
      by (simp add: handleWebhook_try_def signatureRejected_def)
    then show ?thesis by blast
  next
    case b
    with assms have "handleWebhook_try d w
        = handleWebhook_event (wd_lookupRejects d) ev (log Warn_SecretNotConfigured w)"
      by (simp add: handleWebhook_try_def)
    then show ?thesis by (intro exI[of _ "log Warn_SecretNotConfigured w"]) (simp add: log_def)
  next
    case c
    with assms have "handleWebhook_try d w
        = handleWebhook_event (wd_lookupRejects d) ev (log Log_TestSignature w)"
      by (simp add: handleWebhook_try_def)
    then show ?thesis by (intro exI[of _ "log Log_TestSignature w"]) (simp add: log_def)
  next
    case d
    with assms have "handleWebhook_try d w = handleWebhook_event (wd_lookupRejects d) ev w"
      by (simp add: handleWebhook_try_def)
    then show ?thesis by blast
  qed
qed

lemma handleWebhook_wrap:
  "fst (handleWebhook d w) = fst (handleWebhook_try d w)"
  "bookings (snd (handleWebhook d w)) = bookings (snd (handleWebhook_try d w))"
  "payments (snd (handleWebhook d w)) = payments (snd (handleWebhook_try d w))"
  "webhookEvents (snd (handleWebhook d w)) = webhookEvents (snd (handleWebhook_try d w))"
  "sent (snd (handleWebhook d w)) = sent (snd (handleWebhook_try d w))"
  "filter is_booking_update (logs (snd (handleWebhook d w)))
     = filter is_booking_update (logs (snd (handleWebhook_try d w)))"
  by (cases "handleWebhook_try d w"; cases "fst (handleWebhook_try d w)";
      simp add: handleWebhook_def log_def)+

lemma handleWebhook_event_duplicate:
  assumes "eventIdOf ev \<noteq> ''no-id''" and "eventIdOf ev \<in> set (webhookEvents w)"
  shows "handleWebhook_event rejects ev w
         = (Inr Received, log (Log_AlreadyProcessed (eventIdOf ev)) (log Log_EventStructure w))"
  using assms eventIdOf_nonempty[of ev]
  by (simp add: handleWebhook_event_def Let_def log_def)

lemma handleWebhook_duplicate:
  assumes "\<not> signatureRejected d" and "wd_body d = Some ev"
    and "eventIdOf ev \<noteq> ''no-id''" and "eventIdOf ev \<in> set (webhookEvents w)"
  shows "fst (handleWebhook d w) = Inr Received
       \<and> bookings (snd (handleWebhook d w)) = bookings w
       \<and> payments (snd (handleWebhook d w)) = payments w
       \<and> webhookEvents (snd (handleWebhook d w)) = webhookEvents w
       \<and> sent (snd (handleWebhook d w)) = sent w
       \<and> filter is_booking_update (logs (snd (handleWebhook d w))) = filter is_booking_update (logs w)"
proof -
  from handleWebhook_accepted[OF assms(1,2), of w] obtain w0 where
    t: "handleWebhook_try d w = handleWebhook_event (wd_lookupRejects d) ev w0"
    and w0: "bookings w0 = bookings w" "payments w0 = payments w" "webhookEvents w0 = webhookEvents w"
      "sent w0 = sent w" "filter is_booking_update (logs w0) = filter is_booking_update (logs w)"
    by blast
  have "eventIdOf ev \<in> set (webhookEvents w0)" using assms(4) w0 by simp
  from handleWebhook_event_duplicate[OF assms(3) this]
  have "handleWebhook_try d w
          = (Inr Received, log (Log_AlreadyProcessed (eventIdOf ev)) (log Log_EventStructure w0))"
    unfolding t .
  then show ?thesis
    unfolding handleWebhook_wrap using w0 by (simp add: log_def)
qed

lemma handleWebhook_event_records:
  assumes "eventIdOf ev \<noteq> ''no-id''" and "handleWebhook_event rejects ev w = (res, w')"
  shows "eventIdOf ev \<in> set (webhookEvents w')"
  using assms eventIdOf_nonempty[of ev]
  by (auto simp: handleWebhook_event_def Let_def log_def durable_def split: if_splits
      dest!: handleWebhook_apply_durable)

lemma handleWebhook_records:
  assumes "\<not> signatureRejected d" and "wd_body d = Some ev" and "eventIdOf ev \<noteq> ''no-id''"
  shows "eventIdOf ev \<in> set (webhookEvents (snd (handleWebhook d w)))"
proof -
  from handleWebhook_accepted[OF assms(1,2), of w] obtain w0 where
    t: "handleWebhook_try d w = handleWebhook_event (wd_lookupRejects d) ev w0"
    by blast
  obtain res w1 where e: "handleWebhook_event (wd_lookupRejects d) ev w0 = (res, w1)"
    by (cases "handleWebhook_event (wd_lookupRejects d) ev w0")
  from handleWebhook_event_records[OF assms(3) e] show ?thesis
    unfolding handleWebhook_wrap t e by simp
qed






text \<open>
  C10.  The handler records the event id before it looks the payment up.  Whatever the
  first delivery of an event does afterwards, its id is in the processed-event set when
  the handler returns or throws; in particular when the payment query rejects, the
  handler throws, no payment or booking is touched, and the id is recorded all the
  same.  From then on, after any history of operations, a redelivery with the same id
  is acknowledged and applies nothing.
\<close>

theorem webhook_event_recorded_before_processing:
  assumes "\<not> signatureRejected d" and "wd_body d = Some ev" and "eventIdOf ev \<noteq> ''no-id''"
    and "\<not> signatureRejected d'" and "wd_body d' = Some ev'" and "eventIdOf ev' = eventIdOf ev"
  shows "eventIdOf ev \<in> set (webhookEvents (snd (handleWebhook d w)))
       \<and> (eventIdOf ev \<notin> set (webhookEvents w) \<and> we_externalId ev \<noteq> [] \<and> wd_lookupRejects d
            \<longrightarrow> fst (handleWebhook d w) = Inl (Error ''database'')
              \<and> bookings (snd (handleWebhook d w)) = bookings w
              \<and> payments (snd (handleWebhook d w)) = payments w
              \<and> sent (snd (handleWebhook d w)) = sent w)
       \<and> fst (handleWebhook d' (run ops (snd (handleWebhook d w)))) = Inr Received
       \<and> bookings (snd (handleWebhook d' (run ops (snd (handleWebhook d w)))))
           = bookings (run ops (snd (handleWebhook d w)))
       \<and> payments (snd (handleWebhook d' (run ops (snd (handleWebhook d w)))))
           = payments (run ops (snd (handleWebhook d w)))
       \<and> webhookEvents (snd (handleWebhook d' (run ops (snd (handleWebhook d w)))))
           = webhookEvents (run ops (snd (handleWebhook d w)))
       \<and> sent (snd (handleWebhook d' (run ops (snd (handleWebhook d w)))))
           = sent (run ops (snd (handleWebhook d w)))"
proof -
  let ?w1 = "snd (handleWebhook d w)"
  have rec: "eventIdOf ev \<in> set (webhookEvents ?w1)"
    by (rule handleWebhook_records[OF assms(1-3)])
  have thrown: "fst (handleWebhook d w) = Inl (Error ''database'')
              \<and> bookings ?w1 = bookings w \<and> payments ?w1 = payments w \<and> sent ?w1 = sent w"
    if h: "eventIdOf ev \<notin> set (webhookEvents w) \<and> we_externalId ev \<noteq> [] \<and> wd_lookupRejects d"
  proof -
    from handleWebhook_accepted[OF assms(1,2), of w] obtain w0 where
      t: "handleWebhook_try d w = handleWebhook_event (wd_lookupRejects d) ev w0"
      and w0: "bookings w0 = bookings w" "payments w0 = payments w" "webhookEvents w0 = webhookEvents w"
        "sent w0 = sent w"
      by blast
    have "handleWebhook_event (wd_lookupRejects d) ev w0
            = (Inl (Error ''database''),
               (log Log_EventStructure w0)\<lparr>webhookEvents := webhookEvents w0 @ [eventIdOf ev]\<rparr>)"
      using h w0 assms(3) eventIdOf_nonempty[of ev]
      by (simp add: handleWebhook_event_def handleWebhook_apply_def Let_def log_def)
    then show ?thesis
      unfolding handleWebhook_wrap t using w0 by (simp add: log_def)
  qed
  have "set (webhookEvents ?w1) \<subseteq> set (webhookEvents (run ops ?w1))"
    using grows_run[of ?w1 ops] by (simp add: grows_def)
  with rec have "eventIdOf ev' \<in> set (webhookEvents (run ops ?w1))"
    using assms(6) by auto
  moreover have "eventIdOf ev' \<noteq> ''no-id''" using assms(3,6) by simp
  ultimately have again: "fst (handleWebhook d' (run ops ?w1)) = Inr Received
       \<and> bookings (snd (handleWebhook d' (run ops ?w1))) = bookings (run ops ?w1)
       \<and> payments (snd (handleWebhook d' (run ops ?w1))) = payments (run ops ?w1)
       \<and> webhookEvents (snd (handleWebhook d' (run ops ?w1))) = webhookEvents (run ops ?w1)
       \<and> sent (snd (handleWebhook d' (run ops ?w1))) = sent (run ops ?w1)"
    using handleWebhook_duplicate[OF assms(4,5)] by blast
  show ?thesis using rec thrown again by blast
qed

text \<open>C10, on the instance: the first delivery fails on the payment query; the redelivery is
  acknowledged and the payment stays PENDING.\<close>

theorem webhook_event_recorded_before_processing_witness:
  "\<not> signatureRejected (exDelivery (exEvent ''payment.completed'' ''SUCCEEDED'') True)
   \<and> \<not> signatureRejected (exDelivery (exEvent ''payment.completed'' ''SUCCEEDED'') False)
   \<and> eventIdOf (exEvent ''payment.completed'' ''SUCCEEDED'') \<noteq> ''no-id''
   \<and> fst (handleWebhook (exDelivery (exEvent ''payment.completed'' ''SUCCEEDED'') True)
        (exWorld 100 [exBooking ''b1'' t0900 t1000 BK_PENDING] [exPayment PY_PENDING]))
     = Inl (Error ''database'')
   \<and> payments (snd (handleWebhook (exDelivery (exEvent ''payment.completed'' ''SUCCEEDED'') True)
        (exWorld 100 [exBooking ''b1'' t0900 t1000 BK_PENDING] [exPayment PY_PENDING])))
     = [exPayment PY_PENDING]
   \<and> fst (handleWebhook (exDelivery (exEvent ''payment.completed'' ''SUCCEEDED'') False)
        (run [] (snd (handleWebhook (exDelivery (exEvent ''payment.completed'' ''SUCCEEDED'') True)
           (exWorld 100 [exBooking ''b1'' t0900 t1000 BK_PENDING] [exPayment PY_PENDING])))))
     = Inr Received
   \<and> payments (snd (handleWebhook (exDelivery (exEvent ''payment.completed'' ''SUCCEEDED'') False)
        (run [] (snd (handleWebhook (exDelivery (exEvent ''payment.completed'' ''SUCCEEDED'') True)
           (exWorld 100 [exBooking ''b1'' t0900 t1000 BK_PENDING] [exPayment PY_PENDING]))))))
     = [exPayment PY_PENDING]"
proof -
  let ?ev = "exEvent ''payment.completed'' ''SUCCEEDED''"
  let ?d = "exDelivery ?ev True"
  let ?d' = "exDelivery ?ev False"
  let ?w = "exWorld 100 [exBooking ''b1'' t0900 t1000 BK_PENDING] [exPayment PY_PENDING]"
  have acc: "\<not> signatureRejected ?d" "\<not> signatureRejected ?d'"
    by (simp_all add: signatureRejected_def exDelivery_def)
  have body: "wd_body ?d = Some ?ev" "wd_body ?d' = Some ?ev" by (simp_all add: exDelivery_def)
  have noid: "eventIdOf ?ev \<noteq> ''no-id''" by (simp add: eventIdOf_def exEvent_def)
  have ante: "eventIdOf ?ev \<notin> set (webhookEvents ?w)" "we_externalId ?ev \<noteq> []" "wd_lookupRejects ?d"
    by (simp_all add: exWorld_def exEvent_def exDelivery_def)
  have i: "payments ?w = [exPayment PY_PENDING]" by (simp add: exWorld_def)
  have r: "run [] w = w" for w by (simp add: run_def)
  show ?thesis
    using acc noid ante
      webhook_event_recorded_before_processing[OF acc(1) body(1) noid acc(2) body(2) refl, of ?w "[]"]
    unfolding i r by simp
qed


section \<open>Polling\<close>

lemma getPaymentStatus_Inr:
  "getPaymentStatus r response w = (Inr payment, w1) \<Longrightarrow> response = FetchOk payment"
  by (auto simp: getPaymentStatus_def split: gateway_response.splits option.splits prod.splits sum.splits)

lemma backoff_ms_min: "min (2 ^ a * 1000) 30000 = backoff_ms a"
  by (simp add: backoff_ms_def min_def)

lemma linked_effects [simp]:
  "linked r i (log l w) = linked r i w"
  "linked r i (delay ms w) = linked r i w"
  by (simp_all add: linked_def payment_findUnique_referenceNumber_def booking_findUnique_def
      log_def delay_def)

lemma pending_pair_effects [simp]:
  "pending_pair r i (log l w) = pending_pair r i w"
  "pending_pair r i (delay ms w) = pending_pair r i w"
  by (simp_all add: pending_pair_def payment_findUnique_referenceNumber_def bookingStatus_def
      booking_findUnique_def log_def delay_def)

lemma delays_effects [simp]:
  "delays (log l w) = delays w"
  "delays (delay ms w) = delays w @ [ms]"
  by (simp_all add: log_def delay_def)

lemma pending_pair_linked: "pending_pair r i w \<Longrightarrow> linked r i w"
  by (auto simp: pending_pair_def linked_def bookingStatus_def)

lemma linked_getPaymentStatus:
  assumes "linked r i w"
  shows "fst (getPaymentStatus r (FetchOk resp) w) = Inr resp"
    and "linked r i (snd (getPaymentStatus r (FetchOk resp) w))"
    and "delays (snd (getPaymentStatus r (FetchOk resp) w)) = delays w"
    and "pending_pair r i w \<Longrightarrow> \<not> terminal_status (pr_status resp)
         \<Longrightarrow> pending_pair r i (snd (getPaymentStatus r (FetchOk resp) w))"
proof -
  from assms obtain p b where p: "payment_findUnique_referenceNumber r w = Some p"
    and pi: "p_bookingId p = i" and b: "booking_findUnique i w = Some b"
    by (auto simp: linked_def)
  have bk: "switch_bookingStatus (pr_status resp) = None
            \<or> (\<exists>b. booking_findUnique (p_bookingId p) w = Some b)"
    using b pi by simp
  note g = getPaymentStatus_found[OF p bk]
  let ?f = "\<lambda>q. if p_referenceNumber q = r
                 then q\<lparr>p_status := mapPaymentStatus (pr_status resp),
                        p_paymentMethod := (if pr_customer resp then Some ''online'' else None)\<rparr>
                 else q"
  have pay: "find (\<lambda>q. p_referenceNumber q = r) (payments (snd (getPaymentStatus r (FetchOk resp) w)))
               = Some (?f p)"
    unfolding g(3) using p by (simp add: payment_findUnique_referenceNumber_def find_map_keep)
  have key: "p_referenceNumber p = r" by (rule payment_found_key[OF p])
  have bok: "find (\<lambda>b. b_id b = i) (bookings (snd (getPaymentStatus r (FetchOk resp) w))) \<noteq> None"
    unfolding g(2) using b pi
    by (cases "switch_bookingStatus (pr_status resp)")
       (simp_all add: booking_findUnique_def find_map_keep)
  show "fst (getPaymentStatus r (FetchOk resp) w) = Inr resp" by (rule g(1))
  show "linked r i (snd (getPaymentStatus r (FetchOk resp) w))"
    unfolding linked_def payment_findUnique_referenceNumber_def booking_findUnique_def pay
    using bok pi by simp
  show "delays (snd (getPaymentStatus r (FetchOk resp) w)) = delays w" by (rule g(6))
  show "pending_pair r i (snd (getPaymentStatus r (FetchOk resp) w))"
    if pp: "pending_pair r i w" and nt: "\<not> terminal_status (pr_status resp)"
  proof -
    have sw: "switch_bookingStatus (pr_status resp) = None"
      using nt by (auto simp: terminal_status_def switch_bookingStatus_def)
    have mp: "mapPaymentStatus (pr_status resp) = PY_PENDING"
      using nt by (auto simp: terminal_status_def mapPaymentStatus_def)
    have bs: "bookings (snd (getPaymentStatus r (FetchOk resp) w)) = bookings w"
      unfolding g(2) sw by simp
    show ?thesis
      unfolding pending_pair_def payment_findUnique_referenceNumber_def bookingStatus_def
        booking_findUnique_def pay bs
      using pp pi key mp by (simp add: pending_pair_def bookingStatus_def booking_findUnique_def)
  qed
qed

lemma poll_step:
  assumes "a < m" and "not_final (g a)"
  shows "\<exists>w1. poll_loop r m g a w = poll_loop r m g (a + 1) w1
           \<and> (linked r i w \<longrightarrow> linked r i w1
                \<and> (a < m - 1 \<or> (\<exists>resp. g a = FetchOk resp) \<longrightarrow> delays w1 = delays w @ [wait_after (g a) a]))
           \<and> (pending_pair r i w \<longrightarrow> pending_pair r i w1)"
proof (cases "g a")
  case (FetchFailed msg)
  let ?w0 = "log (Err_CheckingPaymentStatus r) (log (Err_FailedToGetPaymentStatus r) w)"
  let ?w1 = "if a < m - 1 then delay 5000 ?w0 else ?w0"
  have "poll_loop r m g a w = poll_loop r m g (a + 1) ?w1"
    using assms(1) FetchFailed by (simp add: poll_loop.simps[of r m g a w] getPaymentStatus_def)
  then show ?thesis
    using FetchFailed by (intro exI[of _ ?w1]) simp
next
  case (FetchOk resp)
  then have nt: "\<not> terminal_status (pr_status resp)" using assms(2) by simp
  obtain x w0 where gp: "getPaymentStatus r (FetchOk resp) w = (x, w0)"
    by (cases "getPaymentStatus r (FetchOk resp) w")
  show ?thesis
  proof (cases x)
    case (Inl e)
    let ?w1 = "if a < m - 1 then delay 5000 (log (Err_CheckingPaymentStatus r) w0)
               else log (Err_CheckingPaymentStatus r) w0"
    have step: "poll_loop r m g a w = poll_loop r m g (a + 1) ?w1"
      using assms(1) FetchOk gp Inl by (simp add: poll_loop.simps[of r m g a w])
    have nl: "\<not> linked r i w"
      using linked_getPaymentStatus(1)[of r i w resp] gp Inl by auto
    then have "\<not> pending_pair r i w" using pending_pair_linked by blast
    with step nl show ?thesis by blast
  next
    case (Inr payment)
    have same: "payment = resp" using getPaymentStatus_Inr[of r "FetchOk resp" w payment w0] gp Inr by simp
    let ?w1 = "delay (min (2 ^ a * 1000) 30000) (log (Log_StillPending r (min (2 ^ a * 1000) 30000)) w0)"
    have step: "poll_loop r m g a w = poll_loop r m g (a + 1) ?w1"
      using assms(1) FetchOk gp Inr same nt
      by (simp add: poll_loop.simps[of r m g a w] terminal_status_def)
    have w0: "w0 = snd (getPaymentStatus r (FetchOk resp) w)" using gp by simp
    have l: "linked r i ?w1 \<and> delays ?w1 = delays w @ [wait_after (g a) a]" if "linked r i w"
      using linked_getPaymentStatus(2,3)[OF that, of resp] FetchOk
      unfolding w0[symmetric] by (simp add: backoff_ms_min)
    have p: "pending_pair r i ?w1" if "pending_pair r i w"
      using linked_getPaymentStatus(4)[OF pending_pair_linked[OF that] that nt]
      unfolding w0[symmetric] by simp
    show ?thesis using step l p by blast
  qed
qed

lemma poll_skip:
  assumes "a \<le> k" and "k \<le> m" and "\<forall>j. a \<le> j \<and> j < k \<longrightarrow> not_final (g j)"
  shows "\<exists>w'. poll_loop r m g a w = poll_loop r m g k w'
           \<and> (linked r i w \<longrightarrow> linked r i w'
                \<and> (k < m \<or> (\<forall>j. a \<le> j \<and> j < k \<longrightarrow> (\<exists>resp. g j = FetchOk resp))
                     \<longrightarrow> delays w' = delays w @ map (\<lambda>j. wait_after (g j) j) [a..<k]))
           \<and> (pending_pair r i w \<longrightarrow> pending_pair r i w')"
  using assms
proof (induction "k - a" arbitrary: a w)
  case 0
  then have "a = k" by simp
  then show ?case by (intro exI[of _ w]) simp
next
  case (Suc n)
  then have lt: "a < k" and am: "a < m" and nf: "not_final (g a)" by auto
  from poll_step[where a=a and m=m and g=g and r=r and w=w and i=i, OF am nf] obtain w1 where
    s: "poll_loop r m g a w = poll_loop r m g (a + 1) w1"
    and l1: "linked r i w \<longrightarrow> linked r i w1
                \<and> (a < m - 1 \<or> (\<exists>resp. g a = FetchOk resp) \<longrightarrow> delays w1 = delays w @ [wait_after (g a) a])"
    and p1: "pending_pair r i w \<longrightarrow> pending_pair r i w1"
    by blast
  have "n = k - (a + 1)" using Suc.hyps(2) by simp
  from Suc.hyps(1)[OF this, of w1] Suc.prems lt obtain w' where
    s': "poll_loop r m g (a + 1) w1 = poll_loop r m g k w'"
    and l': "linked r i w1 \<longrightarrow> linked r i w'
                \<and> (k < m \<or> (\<forall>j. a + 1 \<le> j \<and> j < k \<longrightarrow> (\<exists>resp. g j = FetchOk resp))
                     \<longrightarrow> delays w' = delays w1 @ map (\<lambda>j. wait_after (g j) j) [a + 1..<k])"
    and p': "pending_pair r i w1 \<longrightarrow> pending_pair r i w'"
    by auto
  have up: "[a..<k] = a # [a + 1..<k]" using lt by (simp add: upt_conv_Cons)
  have d: "delays w' = delays w @ map (\<lambda>j. wait_after (g j) j) [a..<k]"
    if "linked r i w" and c: "k < m \<or> (\<forall>j. a \<le> j \<and> j < k \<longrightarrow> (\<exists>resp. g j = FetchOk resp))"
  proof -
    have c1: "a < m - 1 \<or> (\<exists>resp. g a = FetchOk resp)" using c lt by auto
    have c2: "k < m \<or> (\<forall>j. a + 1 \<le> j \<and> j < k \<longrightarrow> (\<exists>resp. g j = FetchOk resp))" using c by auto
    from l1 that(1) c1 have "linked r i w1" and "delays w1 = delays w @ [wait_after (g a) a]" by auto
    with l' c2 show ?thesis unfolding up by auto
  qed
  show ?case
    using s s' l1 l' p1 p' d by (intro exI[of _ w']) auto
qed


lemma poll_loop_returns:
  assumes l: "linked r i w" and km: "k < m" and nf: "\<forall>j<k. not_final (g j)"
    and gk: "g k = FetchOk resp" and t: "terminal_status (pr_status resp)"
  shows "fst (poll_loop r m g 0 w) = Inr (pr_status resp)
       \<and> delays (snd (poll_loop r m g 0 w)) = delays w @ map (\<lambda>j. wait_after (g j) j) [0..<k]"
proof -
  from poll_skip[where a=0 and k=k and m=m and g=g and r=r and w=w and i=i] km nf l
  obtain w' where s: "poll_loop r m g 0 w = poll_loop r m g k w'" and l': "linked r i w'"
    and d: "delays w' = delays w @ map (\<lambda>j. wait_after (g j) j) [0..<k]"
    by auto
  obtain x w1 where gp: "getPaymentStatus r (FetchOk resp) w' = (x, w1)"
    by (cases "getPaymentStatus r (FetchOk resp) w'")
  have x: "x = Inr resp" and d1: "delays w1 = delays w'"
    using linked_getPaymentStatus(1,3)[OF l', of resp] gp by simp_all
  have "poll_loop r m g k w' = (Inr (pr_status resp), log (Log_FinalStatus r (pr_status resp)) w1)"
    using km gk gp x t by (simp add: poll_loop.simps[of r m g k w'] terminal_status_def)
  then show ?thesis unfolding s using d d1 by simp
qed

lemma poll_loop_times_out:
  assumes nf: "\<forall>j<m. not_final (g j)"
  shows "fst (poll_loop r m g 0 w) = Inl (Error ''Payment status check timeout after 10 minutes'')"
    and "pending_pair r i w \<Longrightarrow> pending_pair r i (snd (poll_loop r m g 0 w))"
    and "linked r i w \<Longrightarrow> \<forall>j<m. \<exists>resp. g j = FetchOk resp
         \<Longrightarrow> delays (snd (poll_loop r m g 0 w)) = delays w @ map backoff_ms [0..<m]"
proof -
  from poll_skip[where a=0 and k=m and m=m and g=g and r=r and w=w and i=i] nf
  obtain w' where s: "poll_loop r m g 0 w = poll_loop r m g m w'"
    and l': "linked r i w \<longrightarrow> linked r i w'
                \<and> ((\<forall>j. j < m \<longrightarrow> (\<exists>resp. g j = FetchOk resp))
                     \<longrightarrow> delays w' = delays w @ map (\<lambda>j. wait_after (g j) j) [0..<m])"
    and p': "pending_pair r i w \<longrightarrow> pending_pair r i w'"
    by auto
  have e: "poll_loop r m g m w' = (Inl (Error ''Payment status check timeout after 10 minutes''),
                                   log (Warn_StatusCheckTimeout r) w')"
    by (simp add: poll_loop.simps[of r m g m w'])
  show "fst (poll_loop r m g 0 w) = Inl (Error ''Payment status check timeout after 10 minutes'')"
    unfolding s e by simp
  show "pending_pair r i (snd (poll_loop r m g 0 w))" if "pending_pair r i w"
    unfolding s e using p' that by simp
  show "delays (snd (poll_loop r m g 0 w)) = delays w @ map backoff_ms [0..<m]"
    if "linked r i w" and ok: "\<forall>j<m. \<exists>resp. g j = FetchOk resp"
  proof -
    have "map (\<lambda>j. wait_after (g j) j) [0..<m] = map backoff_ms [0..<m]"
      using ok by (auto simp: map_eq_conv)
    with l' that show ?thesis unfolding s e by simp
  qed
qed

text \<open>
  C9.  For a stored payment with its booking: when attempt \<open>k\<close>, below \<open>maxAttempts\<close>
  (20 when the argument is left out), is the first to fetch SUCCEEDED, FAILED or
  CANCELLED, the poll returns that status and has waited, after each earlier attempt
  \<open>j\<close>, \<open>min(2^j, 30)\<close> seconds where the fetch succeeded and 5 seconds where it
  failed.  When no attempt fetches a terminal status, the poll throws ``Payment status
  check timeout after 10 minutes''; a payment and booking that were PENDING are PENDING
  afterwards; and if every fetch succeeded the waits were \<open>min(2^j, 30)\<close> seconds for
  \<open>j\<close> from 0 to \<open>maxAttempts - 1\<close>.
\<close>

theorem pollPaymentStatus_returns_backs_off_times_out:
  "(linked r i w \<and> k < (case mx of None \<Rightarrow> 20 | Some n \<Rightarrow> n) \<and> (\<forall>j<k. not_final (g j))
      \<and> g k = FetchOk resp \<and> terminal_status (pr_status resp)
      \<longrightarrow> fst (pollPaymentStatus r mx g w) = Inr (pr_status resp)
        \<and> delays (snd (pollPaymentStatus r mx g w)) = delays w @ map (\<lambda>j. wait_after (g j) j) [0..<k])
   \<and> ((\<forall>j < (case mx of None \<Rightarrow> 20 | Some n \<Rightarrow> n). not_final (g j))
      \<longrightarrow> fst (pollPaymentStatus r mx g w) = Inl (Error ''Payment status check timeout after 10 minutes'')
        \<and> (pending_pair r i w \<longrightarrow> pending_pair r i (snd (pollPaymentStatus r mx g w)))
        \<and> (linked r i w \<and> (\<forall>j < (case mx of None \<Rightarrow> 20 | Some n \<Rightarrow> n). \<exists>resp. g j = FetchOk resp)
             \<longrightarrow> delays (snd (pollPaymentStatus r mx g w))
                   = delays w @ map backoff_ms [0..<(case mx of None \<Rightarrow> 20 | Some n \<Rightarrow> n)]))
   \<and> pollPaymentStatus r None g w = pollPaymentStatus r (Some 20) g w
   \<and> backoff_ms k = min (2 ^ k) 30 * 1000"
proof -
  let ?m = "case mx of None \<Rightarrow> 20 | Some n \<Rightarrow> n"
  have A: "fst (poll_loop r ?m g 0 w) = Inr (pr_status resp)
        \<and> delays (snd (poll_loop r ?m g 0 w)) = delays w @ map (\<lambda>j. wait_after (g j) j) [0..<k]"
    if "linked r i w \<and> k < ?m \<and> (\<forall>j<k. not_final (g j))
        \<and> g k = FetchOk resp \<and> terminal_status (pr_status resp)"
    using poll_loop_returns[where r=r and i=i and w=w and k=k and m="?m" and g=g and resp=resp] that
    by blast
  have B: "fst (poll_loop r ?m g 0 w) = Inl (Error ''Payment status check timeout after 10 minutes'')
        \<and> (pending_pair r i w \<longrightarrow> pending_pair r i (snd (poll_loop r ?m g 0 w)))
        \<and> (linked r i w \<and> (\<forall>j < ?m. \<exists>resp. g j = FetchOk resp)
             \<longrightarrow> delays (snd (poll_loop r ?m g 0 w)) = delays w @ map backoff_ms [0..<?m])"
    if nf: "\<forall>j < ?m. not_final (g j)"
    using poll_loop_times_out(1)[OF nf, where r=r and w=w]
      poll_loop_times_out(2)[OF nf, where r=r and w=w and i=i]
      poll_loop_times_out(3)[OF nf, where r=r and w=w and i=i]
    by blast
  have C: "poll_loop r (case None of None \<Rightarrow> 20 | Some n \<Rightarrow> n) g 0 w
           = poll_loop r (case Some 20 of None \<Rightarrow> 20 | Some n \<Rightarrow> n) g 0 w"
    by simp
  have D: "backoff_ms k = min (2 ^ k) 30 * 1000" by (simp add: backoff_ms_def)
  show ?thesis
    unfolding pollPaymentStatus_def using A B C D by blast
qed

text \<open>C9, on the instance: PENDING five times and then FAILED under the default; PENDING
  throughout with three attempts.\<close>

theorem pollPaymentStatus_returns_backs_off_times_out_witness:
  "linked ''ref'' ''b1'' (exWorld 100 [exBooking ''b1'' t0900 t1000 BK_PENDING] [exPayment PY_PENDING])
   \<and> not_final (exGateway 5 ''FAILED'' 4)
   \<and> terminal_status ''FAILED''
   \<and> fst (pollPaymentStatus ''ref'' None (exGateway 5 ''FAILED'')
        (exWorld 100 [exBooking ''b1'' t0900 t1000 BK_PENDING] [exPayment PY_PENDING])) = Inr ''FAILED''
   \<and> delays (snd (pollPaymentStatus ''ref'' None (exGateway 5 ''FAILED'')
        (exWorld 100 [exBooking ''b1'' t0900 t1000 BK_PENDING] [exPayment PY_PENDING])))
     = [1000, 2000, 4000, 8000, 16000]
   \<and> not_final (exGateway 3 ''PENDING'' 2)
   \<and> pending_pair ''ref'' ''b1'' (exWorld 100 [exBooking ''b1'' t0900 t1000 BK_PENDING] [exPayment PY_PENDING])
   \<and> fst (pollPaymentStatus ''ref'' (Some 3) (exGateway 3 ''PENDING'')
        (exWorld 100 [exBooking ''b1'' t0900 t1000 BK_PENDING] [exPayment PY_PENDING]))
     = Inl (Error ''Payment status check timeout after 10 minutes'')
   \<and> pending_pair ''ref'' ''b1'' (snd (pollPaymentStatus ''ref'' (Some 3) (exGateway 3 ''PENDING'')
        (exWorld 100 [exBooking ''b1'' t0900 t1000 BK_PENDING] [exPayment PY_PENDING])))
   \<and> delays (snd (pollPaymentStatus ''ref'' (Some 3) (exGateway 3 ''PENDING'')
        (exWorld 100 [exBooking ''b1'' t0900 t1000 BK_PENDING] [exPayment PY_PENDING])))
     = [1000, 2000, 4000]"
proof -
  let ?w = "exWorld 100 [exBooking ''b1'' t0900 t1000 BK_PENDING] [exPayment PY_PENDING]"
  have l: "linked ''ref'' ''b1'' ?w"
    by (simp add: linked_def payment_findUnique_referenceNumber_def booking_findUnique_def
        exWorld_def exPayment_def exBooking_def)
  have p: "pending_pair ''ref'' ''b1'' ?w"
    by (simp add: pending_pair_def payment_findUnique_referenceNumber_def bookingStatus_def
        booking_findUnique_def exWorld_def exPayment_def exBooking_def)
  have n5: "\<forall>j<5. not_final (exGateway 5 ''FAILED'' j)"
    and n3: "\<forall>j<3. not_final (exGateway 3 ''PENDING'' j)"
    and ok3: "\<forall>j<3. \<exists>resp. exGateway 3 ''PENDING'' j = FetchOk resp"
    by (simp_all add: exGateway_def terminal_status_def)
  have g5: "exGateway 5 ''FAILED'' 5 = FetchOk \<lparr>pr_status = ''FAILED'', pr_customer = True\<rparr>"
    by (simp add: exGateway_def)
  have t: "terminal_status ''FAILED''" by (simp add: terminal_status_def)
  have t': "terminal_status (pr_status \<lparr>pr_status = ''FAILED'', pr_customer = True\<rparr>)"
    using t by simp
  have d0: "delays ?w = []" by (simp add: exWorld_def)
  have w5: "map (\<lambda>j. wait_after (exGateway 5 ''FAILED'' j) j) [0..<5] = [1000, 2000, 4000, 8000, 16000]"
    by code_simp
  have w3: "map backoff_ms [0..<3] = [1000, 2000, 4000]"
    by code_simp
  have k5: "(5::nat) < (case None of None \<Rightarrow> 20 | Some n \<Rightarrow> n)" by simp
  have m3: "(case Some (3::nat) of None \<Rightarrow> 20 | Some n \<Rightarrow> n) = 3" by simp
  have "fst (pollPaymentStatus ''ref'' None (exGateway 5 ''FAILED'') ?w)
          = Inr (pr_status \<lparr>pr_status = ''FAILED'', pr_customer = True\<rparr>)
         \<and> delays (snd (pollPaymentStatus ''ref'' None (exGateway 5 ''FAILED'') ?w))
             = delays ?w @ map (\<lambda>j. wait_after (exGateway 5 ''FAILED'' j) j) [0..<5]"
    using pollPaymentStatus_returns_backs_off_times_out[of "''ref''" "''b1''" ?w 5 None
        "exGateway 5 ''FAILED''" "\<lparr>pr_status = ''FAILED'', pr_customer = True\<rparr>"]
      l k5 n5 g5 t' by blast
  then have A: "fst (pollPaymentStatus ''ref'' None (exGateway 5 ''FAILED'') ?w) = Inr ''FAILED''
         \<and> delays (snd (pollPaymentStatus ''ref'' None (exGateway 5 ''FAILED'') ?w))
             = [1000, 2000, 4000, 8000, 16000]"
    unfolding d0 w5 by simp
  have "fst (pollPaymentStatus ''ref'' (Some 3) (exGateway 3 ''PENDING'') ?w)
             = Inl (Error ''Payment status check timeout after 10 minutes'')
         \<and> pending_pair ''ref'' ''b1'' (snd (pollPaymentStatus ''ref'' (Some 3) (exGateway 3 ''PENDING'') ?w))
         \<and> delays (snd (pollPaymentStatus ''ref'' (Some 3) (exGateway 3 ''PENDING'') ?w))
             = delays ?w @ map backoff_ms [0..<3]"
    using pollPaymentStatus_returns_backs_off_times_out[of "''ref''" "''b1''" ?w 0 "Some 3"
        "exGateway 3 ''PENDING''" "\<lparr>pr_status = ''FAILED'', pr_customer = True\<rparr>", unfolded m3]
      l p n3 ok3 by blast
  then have B: "fst (pollPaymentStatus ''ref'' (Some 3) (exGateway 3 ''PENDING'') ?w)
             = Inl (Error ''Payment status check timeout after 10 minutes'')
         \<and> pending_pair ''ref'' ''b1'' (snd (pollPaymentStatus ''ref'' (Some 3) (exGateway 3 ''PENDING'') ?w))
         \<and> delays (snd (pollPaymentStatus ''ref'' (Some 3) (exGateway 3 ''PENDING'') ?w)) = [1000, 2000, 4000]"
    unfolding d0 w3 by simp
  have n4: "not_final (exGateway 5 ''FAILED'' 4)" and n2: "not_final (exGateway 3 ''PENDING'' 2)"
    using n5 n3 by simp_all
  show ?thesis using l p n4 n2 t A B by blast
qed

end
